theory Spec2Isabelle
  imports Complex_Main "HOL-Library.Log_Nat" "HOL-Library.Signed_Division"
begin

section \<open>The arithmetic of the C++ types \<^verbatim>\<open>float\<close>, \<^verbatim>\<open>double\<close> and \<^verbatim>\<open>int\<close>\<close>

text \<open>
  engine2d.cpp computes with \<^verbatim>\<open>float\<close> (IEEE 754 binary32) and, for the measured
  frame time and the draw angle, with \<^verbatim>\<open>double\<close> (binary64). A value of either type is
  a finite real number, an infinity or a NaN. Every operation computes the exact real result
  and rounds it to the nearest representable value, ties to the even significand
  (the default rounding mode, one operation at a time, as SSE arithmetic does).
  The two zeros are identified and NaN payloads are not tracked: no operation of the program
  (\<^verbatim>\<open>+\<close>, \<^verbatim>\<open>-\<close>, \<^verbatim>\<open>*\<close>, \<^verbatim>\<open>>=\<close>, \<^verbatim>\<open>std::round\<close>, the conversions) tells them apart by value.
\<close>

datatype ieee = Fin real | PInf | NInf | NaN

type_synonym float = ieee
type_synonym double = ieee

text \<open>Round a real to the nearest integer, ties to even.\<close>

definition rne :: "real \<Rightarrow> int" where
  "rne r = (let f = \<lfloor>r\<rfloor>; d = r - of_int f in
     if d < 1 / 2 then f else if 1 / 2 < d then f + 1 else if even f then f else f + 1)"

text \<open>The binary exponent of a nonzero real: \<open>2 powi expo x \<le> \<bar>x\<bar> < 2 powi (expo x + 1)\<close>.\<close>

definition expo :: "real \<Rightarrow> int" where
  "expo x = (if 1 \<le> \<bar>x\<bar> then bitlen \<lfloor>\<bar>x\<bar>\<rfloor> - 1 else - bitlen (\<lceil>1 / \<bar>x\<bar>\<rceil> - 1))"

text \<open>
  Rounding to a format with \<open>p\<close> significand bits and least normal exponent \<open>emin\<close>:
  the spacing of the format at \<open>x\<close> is \<open>2 powi (max (expo x) emin - p + 1)\<close> (below
  \<open>2 powi emin\<close> the subnormal numbers keep the spacing of the lowest binade).
\<close>

definition quantum :: "int \<Rightarrow> int \<Rightarrow> real \<Rightarrow> real" where
  "quantum p emin x = 2 powi (max (expo x) emin - p + 1)"

definition round_to :: "int \<Rightarrow> int \<Rightarrow> real \<Rightarrow> real" where
  "round_to p emin x =
     (if x = 0 then 0 else of_int (rne (x / quantum p emin x)) * quantum p emin x)"

text \<open>binary32: 24 significand bits, exponents -126 .. 127; a rounded result of magnitude
  \<open>2 ^ 128\<close> overflows to an infinity.\<close>

definition fl32 :: "real \<Rightarrow> float" where
  "fl32 x = (let r = round_to 24 (- 126) x in
     if 2 ^ 128 \<le> r then PInf else if r \<le> - (2 ^ 128) then NInf else Fin r)"

text \<open>binary64: 53 significand bits, exponents -1022 .. 1023.\<close>

definition fl64 :: "real \<Rightarrow> double" where
  "fl64 x = (let r = round_to 53 (- 1022) x in
     if 2 ^ 1024 \<le> r then PInf else if r \<le> - (2 ^ 1024) then NInf else Fin r)"

text \<open>A real is a binary32 number when rounding leaves it alone.\<close>

definition is_float :: "float \<Rightarrow> bool" where
  "is_float a = (case a of Fin x \<Rightarrow> fl32 x = Fin x | _ \<Rightarrow> True)"

definition is_finite :: "ieee \<Rightarrow> bool" where
  "is_finite a = (case a of Fin x \<Rightarrow> True | _ \<Rightarrow> False)"

fun fneg :: "float \<Rightarrow> float" where
  "fneg (Fin x) = Fin (- x)"
| "fneg PInf = NInf"
| "fneg NInf = PInf"
| "fneg NaN = NaN"

fun fadd :: "float \<Rightarrow> float \<Rightarrow> float" where
  "fadd (Fin x) (Fin y) = fl32 (x + y)"
| "fadd NaN b = NaN"
| "fadd a NaN = NaN"
| "fadd PInf NInf = NaN"
| "fadd NInf PInf = NaN"
| "fadd PInf b = PInf"
| "fadd NInf b = NInf"
| "fadd a PInf = PInf"
| "fadd a NInf = NInf"

definition fsub :: "float \<Rightarrow> float \<Rightarrow> float" where
  "fsub a b = fadd a (fneg b)"

text \<open>The sign of an infinity or of a nonzero finite number, for products with an infinity.\<close>

fun fmul_inf :: "bool \<Rightarrow> float \<Rightarrow> float" where
  "fmul_inf s (Fin y) = (if y = 0 then NaN else if (0 < y) = s then PInf else NInf)"
| "fmul_inf s PInf = (if s then PInf else NInf)"
| "fmul_inf s NInf = (if s then NInf else PInf)"
| "fmul_inf s NaN = NaN"

fun fmul :: "float \<Rightarrow> float \<Rightarrow> float" where
  "fmul (Fin x) (Fin y) = fl32 (x * y)"
| "fmul NaN b = NaN"
| "fmul a NaN = NaN"
| "fmul PInf b = fmul_inf True b"
| "fmul NInf b = fmul_inf False b"
| "fmul a PInf = fmul_inf True a"
| "fmul a NInf = fmul_inf False a"

text \<open>\<^verbatim>\<open>a >= b\<close>: false as soon as one side is a NaN.\<close>

fun fge :: "float \<Rightarrow> float \<Rightarrow> bool" where
  "fge (Fin x) (Fin y) = (y \<le> x)"
| "fge NaN b = False"
| "fge a NaN = False"
| "fge PInf b = True"
| "fge a NInf = True"
| "fge NInf b = False"
| "fge a PInf = False"

text \<open>\<^verbatim>\<open>int\<close> is 32 bits wide. Signed overflow and a conversion from a floating value whose
  truncation does not fit are undefined behaviour, which the model reports as an error.\<close>

datatype error = UndefinedBehaviour

definition INT_MAX :: int where
  "INT_MAX = 2147483647"

definition INT_MIN :: int where
  "INT_MIN = - 2147483648"

definition float_of_int :: "int \<Rightarrow> float" where
  "float_of_int i = fl32 (of_int i)"

fun float_of_double :: "double \<Rightarrow> float" where
  "float_of_double (Fin x) = fl32 x"
| "float_of_double a = a"

definition double_of_float :: "float \<Rightarrow> double" where
  "double_of_float a = a"

text \<open>Conversion to \<^verbatim>\<open>int\<close> truncates toward zero.\<close>

definition trunc_toward_zero :: "real \<Rightarrow> int" where
  "trunc_toward_zero x = (if 0 \<le> x then \<lfloor>x\<rfloor> else \<lceil>x\<rceil>)"

fun int_of_float :: "float \<Rightarrow> error + int" where
  "int_of_float (Fin x) =
     (let t = trunc_toward_zero x in
      if INT_MIN \<le> t \<and> t \<le> INT_MAX then Inr t else Inl UndefinedBehaviour)"
| "int_of_float a = Inl UndefinedBehaviour"

text \<open>\<^verbatim>\<open>std::round\<close> on a \<^verbatim>\<open>float\<close>: the nearest integer, halfway cases away from zero.\<close>

definition round_half_away :: "real \<Rightarrow> int" where
  "round_half_away x = (if 0 \<le> x then \<lfloor>x + 1 / 2\<rfloor> else \<lceil>x - 1 / 2\<rceil>)"

fun roundf :: "float \<Rightarrow> float" where
  "roundf (Fin x) = Fin (of_int (round_half_away x))"
| "roundf a = a"

section \<open>Components\<close>

text \<open>The fields \<^verbatim>\<open>x\<close>, \<^verbatim>\<open>y\<close> of \<^verbatim>\<open>Vec2\<close>, \<^verbatim>\<open>w\<close>, \<^verbatim>\<open>h\<close> of \<^verbatim>\<open>Sprite\<close> and
  \<^verbatim>\<open>x\<close>, \<^verbatim>\<open>y\<close>, \<^verbatim>\<open>w\<close>, \<^verbatim>\<open>h\<close> of \<^verbatim>\<open>SDL_Rect\<close> carry a prefix here.\<close>

record Vec2 =
  vec_x :: float
  vec_y :: float

record Transform =
  pos :: Vec2
  rot :: float
  scale :: Vec2

text \<open>A texture pointer is an address; \<open>0\<close> is \<^verbatim>\<open>nullptr\<close>.\<close>

type_synonym SDL_Texture_ptr = nat

record Sprite =
  tex :: SDL_Texture_ptr
  spr_w :: int
  spr_h :: int

record Rigidbody =
  vel :: Vec2
  mass :: float

definition default_Transform :: Transform where
  "default_Transform =
     \<lparr>pos = \<lparr>vec_x = Fin 0, vec_y = Fin 0\<rparr>, rot = Fin 0, scale = \<lparr>vec_x = Fin 1, vec_y = Fin 1\<rparr>\<rparr>"

definition default_Sprite :: Sprite where
  "default_Sprite = \<lparr>tex = 0, spr_w = 0, spr_h = 0\<rparr>"

definition default_Rigidbody :: Rigidbody where
  "default_Rigidbody = \<lparr>vel = \<lparr>vec_x = Fin 0, vec_y = Fin 0\<rparr>, mass = Fin 1\<rparr>"

section \<open>Entities\<close>

type_synonym Entity = int

record EntityManager =
  nextId :: Entity
  entities :: "Entity list"
  transforms :: "Entity \<rightharpoonup> Transform"
  sprites :: "Entity \<rightharpoonup> Sprite"
  bodies :: "Entity \<rightharpoonup> Rigidbody"

text \<open>A freshly constructed \<^verbatim>\<open>EntityManager\<close> (the member initialisers).\<close>

definition new_EntityManager :: EntityManager where
  "new_EntityManager =
     \<lparr>nextId = 1, entities = [], transforms = Map.empty, sprites = Map.empty, bodies = Map.empty\<rparr>"

text \<open>\<^verbatim>\<open>create\<close>: \<^verbatim>\<open>nextId++\<close> overflows when \<^verbatim>\<open>nextId\<close> is \<^verbatim>\<open>INT_MAX\<close>.\<close>

definition create :: "EntityManager \<Rightarrow> error + Entity \<times> EntityManager" where
  "create em =
     (if INT_MAX \<le> nextId em then Inl UndefinedBehaviour
      else let e = nextId em in
        Inr (e, em\<lparr>nextId := e + 1,
                   entities := entities em @ [e],
                   transforms := (transforms em)(e \<mapsto> default_Transform)\<rparr>))"

definition destroyAll :: "EntityManager \<Rightarrow> EntityManager" where
  "destroyAll em =
     em\<lparr>entities := [], transforms := Map.empty, sprites := Map.empty, bodies := Map.empty,
        nextId := 1\<rparr>"

section \<open>Input\<close>

record InputState =
  quit :: bool
  axisX :: float
  axisY :: float
  left :: bool
  right :: bool
  up :: bool
  down :: bool

definition new_InputState :: InputState where
  "new_InputState =
     \<lparr>quit = False, axisX = Fin 0, axisY = Fin 0,
      left = False, right = False, up = False, down = False\<rparr>"

text \<open>The events \<^verbatim>\<open>SDL_PollEvent\<close> hands out, as far as \<^verbatim>\<open>processInput\<close> tells them apart.\<close>

datatype SDL_Keycode = SDLK_a | SDLK_d | SDLK_w | SDLK_s | SDLK_ESCAPE | SDLK_other

datatype SDL_Event = SDL_QUIT | SDL_KEYDOWN SDL_Keycode | SDL_KEYUP SDL_Keycode | SDL_other

text \<open>The \<^verbatim>\<open>switch\<close> on the key of a keyboard event; \<open>dn\<close> is the local \<^verbatim>\<open>down\<close>.\<close>

fun key_event :: "bool \<Rightarrow> SDL_Keycode \<Rightarrow> InputState \<Rightarrow> InputState" where
  "key_event dn SDLK_a inp = inp\<lparr>left := dn\<rparr>"
| "key_event dn SDLK_d inp = inp\<lparr>right := dn\<rparr>"
| "key_event dn SDLK_w inp = inp\<lparr>up := dn\<rparr>"
| "key_event dn SDLK_s inp = inp\<lparr>down := dn\<rparr>"
| "key_event dn SDLK_ESCAPE inp = (if dn then inp\<lparr>quit := True\<rparr> else inp)"
| "key_event dn SDLK_other inp = inp"

text \<open>One turn of the \<^verbatim>\<open>while (SDL_PollEvent(&e))\<close> loop.\<close>

fun poll_event :: "InputState \<Rightarrow> SDL_Event \<Rightarrow> InputState" where
  "poll_event inp SDL_QUIT = inp\<lparr>quit := True\<rparr>"
| "poll_event inp (SDL_KEYDOWN k) = key_event True k inp"
| "poll_event inp (SDL_KEYUP k) = key_event False k inp"
| "poll_event inp SDL_other = inp"

text \<open>The two chained assignments that open \<^verbatim>\<open>processInput\<close>: the axes and the four
  direction flags are cleared, \<^verbatim>\<open>quit\<close> is not touched.\<close>

definition clear_input :: "InputState \<Rightarrow> InputState" where
  "clear_input inp =
     (let in1 = inp\<lparr>axisY := float_of_int 0\<rparr>;
          in2 = in1\<lparr>axisX := axisY in1\<rparr>;
          in3 = in2\<lparr>down := False\<rparr>;
          in4 = in3\<lparr>up := down in3\<rparr>;
          in5 = in4\<lparr>right := up in4\<rparr>
      in in5\<lparr>left := right in5\<rparr>)"

text \<open>The four conditional statements that close \<^verbatim>\<open>processInput\<close>.\<close>

definition apply_axes :: "InputState \<Rightarrow> InputState" where
  "apply_axes inp =
     (let in1 = (if left inp then inp\<lparr>axisX := fsub (axisX inp) (Fin 1)\<rparr> else inp);
          in2 = (if right in1 then in1\<lparr>axisX := fadd (axisX in1) (Fin 1)\<rparr> else in1);
          in3 = (if up in2 then in2\<lparr>axisY := fsub (axisY in2) (Fin 1)\<rparr> else in2)
      in (if down in3 then in3\<lparr>axisY := fadd (axisY in3) (Fin 1)\<rparr> else in3))"

text \<open>\<^verbatim>\<open>processInput\<close>, given the events that are pending when it is called.\<close>

definition processInput :: "InputState \<Rightarrow> SDL_Event list \<Rightarrow> InputState" where
  "processInput inp evs = apply_axes (foldl poll_event (clear_input inp) evs)"

section \<open>Systems\<close>

text \<open>The damping factor, the literal \<^verbatim>\<open>0.98f\<close>.\<close>

definition damping :: float where
  "damping = fl32 (98 / 100)"

text \<open>The body of the loop of \<^verbatim>\<open>physicsSystem\<close> for the entity \<open>e\<close>.\<close>

definition physics_entity :: "float \<Rightarrow> EntityManager \<Rightarrow> Entity \<Rightarrow> EntityManager" where
  "physics_entity dt em e =
     (if bodies em e = None \<or> transforms em e = None then em
      else let rb = the (bodies em e);
               t = the (transforms em e);
               t1 = t\<lparr>pos := (pos t)\<lparr>vec_x := fadd (vec_x (pos t)) (fmul (vec_x (vel rb)) dt)\<rparr>\<rparr>;
               t2 = t1\<lparr>pos := (pos t1)\<lparr>vec_y := fadd (vec_y (pos t1)) (fmul (vec_y (vel rb)) dt)\<rparr>\<rparr>;
               rb1 = rb\<lparr>vel := (vel rb)\<lparr>vec_x := fmul (vec_x (vel rb)) damping\<rparr>\<rparr>;
               rb2 = rb1\<lparr>vel := (vel rb1)\<lparr>vec_y := fmul (vec_y (vel rb1)) damping\<rparr>\<rparr>
           in em\<lparr>transforms := (transforms em)(e \<mapsto> t2), bodies := (bodies em)(e \<mapsto> rb2)\<rparr>)"

definition physicsSystem :: "EntityManager \<Rightarrow> float \<Rightarrow> EntityManager" where
  "physicsSystem em dt = foldl (physics_entity dt) em (entities em)"

definition playerControlSystem ::
  "Entity \<Rightarrow> EntityManager \<Rightarrow> InputState \<Rightarrow> float \<Rightarrow> EntityManager" where
  "playerControlSystem player em inp speed =
     (if bodies em player = None then em
      else let rb = the (bodies em player);
               rb1 = rb\<lparr>vel := (vel rb)\<lparr>vec_x := fadd (vec_x (vel rb)) (fmul (axisX inp) speed)\<rparr>\<rparr>;
               rb2 = rb1\<lparr>vel := (vel rb1)\<lparr>vec_y := fadd (vec_y (vel rb1)) (fmul (axisY inp) speed)\<rparr>\<rparr>
           in em\<lparr>bodies := (bodies em)(player \<mapsto> rb2)\<rparr>)"

text \<open>What \<^verbatim>\<open>renderSystem\<close> asks of the renderer, call by call.\<close>

record SDL_Rect =
  rect_x :: int
  rect_y :: int
  rect_w :: int
  rect_h :: int

datatype SDL_RendererFlip = SDL_FLIP_NONE | SDL_FLIP_HORIZONTAL | SDL_FLIP_VERTICAL

datatype render_call =
    SDL_SetRenderDrawColor nat nat nat nat
  | SDL_RenderClear
  | SDL_RenderCopyEx SDL_Texture_ptr "SDL_Rect option" SDL_Rect double "(int \<times> int) option"
      SDL_RendererFlip
  | SDL_RenderPresent

text \<open>The destination rectangle, field by field in the order of the source:
  \<^verbatim>\<open>sp.w * tr.scale.x\<close> is a \<^verbatim>\<open>float\<close> product, \<^verbatim>\<open>dst.w / 2\<close> an \<^verbatim>\<open>int\<close> division.\<close>

definition dst_rect :: "Sprite \<Rightarrow> Transform \<Rightarrow> error + SDL_Rect" where
  "dst_rect sp tr =
     (case int_of_float (fmul (float_of_int (spr_w sp)) (vec_x (scale tr))) of
        Inl err \<Rightarrow> Inl err
      | Inr w \<Rightarrow>
     (case int_of_float (fmul (float_of_int (spr_h sp)) (vec_y (scale tr))) of
        Inl err \<Rightarrow> Inl err
      | Inr h \<Rightarrow>
     (case int_of_float (roundf (fsub (vec_x (pos tr)) (float_of_int (w sdiv 2)))) of
        Inl err \<Rightarrow> Inl err
      | Inr x \<Rightarrow>
     (case int_of_float (roundf (fsub (vec_y (pos tr)) (float_of_int (h sdiv 2)))) of
        Inl err \<Rightarrow> Inl err
      | Inr y \<Rightarrow> Inr \<lparr>rect_x = x, rect_y = y, rect_w = w, rect_h = h\<rparr>))))"

text \<open>The loop of \<^verbatim>\<open>renderSystem\<close> over the entities still to visit.\<close>

fun render_entities :: "EntityManager \<Rightarrow> Entity list \<Rightarrow> error + render_call list" where
  "render_entities em [] = Inr []"
| "render_entities em (e # es) =
     (if sprites em e = None \<or> transforms em e = None then render_entities em es
      else let sp = the (sprites em e); tr = the (transforms em e) in
        if tex sp = 0 then render_entities em es
        else (case dst_rect sp tr of
                Inl err \<Rightarrow> Inl err
              | Inr dst \<Rightarrow>
                  (case render_entities em es of
                     Inl err \<Rightarrow> Inl err
                   | Inr calls \<Rightarrow>
                       Inr (SDL_RenderCopyEx (tex sp) None dst (double_of_float (rot tr)) None
                              SDL_FLIP_NONE # calls))))"

definition renderSystem :: "EntityManager \<Rightarrow> error + render_call list" where
  "renderSystem em =
     (case render_entities em (entities em) of
        Inl err \<Rightarrow> Inl err
      | Inr calls \<Rightarrow>
          Inr ([SDL_SetRenderDrawColor 50 50 60 255, SDL_RenderClear] @ calls @ [SDL_RenderPresent]))"

section \<open>The main program\<close>

text \<open>\<^verbatim>\<open>m[k]\<close> on an \<^verbatim>\<open>unordered_map\<close>: the entry of \<open>k\<close>, value-initialised first when it is
  missing. \<open>at_default\<close> is the entry read, \<open>with_entry\<close> the map afterwards.\<close>

definition at_default :: "('k \<rightharpoonup> 'v) \<Rightarrow> 'k \<Rightarrow> 'v \<Rightarrow> 'v" where
  "at_default m k d = (case m k of None \<Rightarrow> d | Some v \<Rightarrow> v)"

definition with_entry :: "('k \<rightharpoonup> 'v) \<Rightarrow> 'k \<Rightarrow> 'v \<Rightarrow> ('k \<rightharpoonup> 'v)" where
  "with_entry m k d = m(k \<mapsto> at_default m k d)"

definition WINDOW_W :: int where
  "WINDOW_W = 800"

definition WINDOW_H :: int where
  "WINDOW_H = 600"

text \<open>\<^verbatim>\<open>TARGET_DT = 1.0f / 60.0f\<close>: both operands are exact, the quotient is rounded once.\<close>

definition TARGET_DT :: float where
  "TARGET_DT = fl32 (1 / 60)"

text \<open>The loop that creates the five static objects, from the counter \<open>i\<close> on.\<close>

function static_objects :: "Entity \<Rightarrow> int \<Rightarrow> EntityManager \<Rightarrow> error + EntityManager" where
  "static_objects player i em =
     (if i < 5 then
        (case create em of
           Inl err \<Rightarrow> Inl err
         | Inr (e, em1) \<Rightarrow>
             let t1 = (at_default (transforms em1) e default_Transform)
                        \<lparr>pos := \<lparr>vec_x = fadd (Fin 100) (fmul (float_of_int i) (Fin 120)),
                                 vec_y = fadd (Fin 150) (fmul (float_of_int (i smod 2)) (Fin 80))\<rparr>\<rparr>;
                 em2 = em1\<lparr>transforms := (transforms em1)(e \<mapsto> t1)\<rparr>;
                 t2 = (at_default (transforms em2) e default_Transform)
                        \<lparr>scale := \<lparr>vec_x = fl32 (8 / 10), vec_y = fl32 (8 / 10)\<rparr>\<rparr>;
                 em3 = em2\<lparr>transforms := (transforms em2)(e \<mapsto> t2)\<rparr>;
                 sp = at_default (sprites em3) player default_Sprite;
                 em4 = em3\<lparr>sprites := with_entry (sprites em3) player default_Sprite\<rparr>;
                 em5 = em4\<lparr>sprites := (sprites em4)(e \<mapsto> sp)\<rparr>
             in static_objects player (i + 1) em5)
      else Inr em)"
  by pat_completeness auto
termination
  by (relation "measure (\<lambda>(player, i, em). nat (5 - i))") auto

declare static_objects.simps [simp del]

text \<open>The set-up of \<^verbatim>\<open>main\<close> between the construction of the \<^verbatim>\<open>EntityManager\<close> and the
  loop; \<open>texture\<close> is the pointer the texture loading ends with (null when the file and the
  fallback surface both fail).\<close>

definition main_setup :: "SDL_Texture_ptr \<Rightarrow> error + Entity \<times> EntityManager" where
  "main_setup texture =
     (case create new_EntityManager of
        Inl err \<Rightarrow> Inl err
      | Inr (player, em1) \<Rightarrow>
          let t1 = (at_default (transforms em1) player default_Transform)
                     \<lparr>pos := \<lparr>vec_x = fl32 (of_int WINDOW_W / 2), vec_y = fl32 (of_int WINDOW_H / 2)\<rparr>\<rparr>;
              em2 = em1\<lparr>transforms := (transforms em1)(player \<mapsto> t1)\<rparr>;
              t2 = (at_default (transforms em2) player default_Transform)
                     \<lparr>scale := \<lparr>vec_x = Fin 1, vec_y = Fin 1\<rparr>\<rparr>;
              em3 = em2\<lparr>transforms := (transforms em2)(player \<mapsto> t2)\<rparr>;
              em4 = em3\<lparr>bodies := (bodies em3)
                       (player \<mapsto> \<lparr>vel = \<lparr>vec_x = Fin 0, vec_y = Fin 0\<rparr>, mass = Fin 1\<rparr>)\<rparr>;
              em5 = em4\<lparr>sprites := (sprites em4)
                       (player \<mapsto> \<lparr>tex = texture, spr_w = 64, spr_h = 64\<rparr>)\<rparr>
          in (case static_objects player 0 em5 of
                Inl err \<Rightarrow> Inl err
              | Inr em6 \<Rightarrow> Inr (player, em6)))"

text \<open>The systems the loop invokes, in the order it invokes them.\<close>

datatype sys_call =
  Call_processInput | Call_playerControlSystem | Call_physicsSystem | Call_renderSystem

text \<open>One fixed tick: the body of \<^verbatim>\<open>while (accumulator >= TARGET_DT)\<close> without the subtraction.\<close>

definition fixed_tick :: "Entity \<Rightarrow> InputState \<Rightarrow> EntityManager \<Rightarrow> EntityManager" where
  "fixed_tick player inp em =
     physicsSystem (playerControlSystem player em inp (fmul (Fin 200) TARGET_DT)) TARGET_DT"

text \<open>The inner loop. It need not terminate: \<open>None\<close> is a loop that runs forever.\<close>

partial_function (option) drain ::
  "Entity \<Rightarrow> InputState \<Rightarrow> EntityManager \<Rightarrow> float \<Rightarrow> sys_call list \<Rightarrow>
     (EntityManager \<times> float \<times> sys_call list) option" where
  "drain player inp em acc calls =
     (if fge acc TARGET_DT then
        drain player inp (fixed_tick player inp em) (fsub acc TARGET_DT)
          (calls @ [Call_playerControlSystem, Call_physicsSystem])
      else Some (em, acc, calls))"

record LoopState =
  ls_em :: EntityManager
  ls_input :: InputState
  ls_accumulator :: float

text \<open>One pass of \<^verbatim>\<open>while (!input.quit)\<close>: \<open>elapsed\<close> is the \<^verbatim>\<open>double\<close> computed from the
  performance counter, \<open>evs\<close> the pending events. The result is the state after the pass,
  the renderer calls of the frame and the systems invoked.\<close>

definition outer_iteration ::
  "Entity \<Rightarrow> LoopState \<Rightarrow> double \<Rightarrow> SDL_Event list \<Rightarrow>
     (error + LoopState \<times> render_call list \<times> sys_call list) option" where
  "outer_iteration player st elapsed evs =
     (let acc1 = fadd (ls_accumulator st) (float_of_double elapsed);
          inp1 = processInput (ls_input st) evs
      in case drain player inp1 (ls_em st) acc1 [Call_processInput] of
           None \<Rightarrow> None
         | Some (em1, acc2, calls) \<Rightarrow>
             Some (case renderSystem em1 of
                     Inl err \<Rightarrow> Inl err
                   | Inr frame \<Rightarrow>
                       Inr (\<lparr>ls_em = em1, ls_input = inp1, ls_accumulator = acc2\<rparr>, frame,
                            calls @ [Call_renderSystem])))"

text \<open>The state in which \<^verbatim>\<open>main\<close> enters its loop: a fresh \<^verbatim>\<open>InputState\<close> and an
  accumulator of \<^verbatim>\<open>0.0f\<close>.\<close>

definition loop_start :: "EntityManager \<Rightarrow> LoopState" where
  "loop_start em = \<lparr>ls_em = em, ls_input = new_InputState, ls_accumulator = Fin 0\<rparr>"

section \<open>The states of the registry\<close>

text \<open>What the program can do to an \<^verbatim>\<open>EntityManager\<close>: construct it, create an entity,
  reset it, assign a component of an entity that was created, and run the control and the
  physics system (the render system returns renderer calls and leaves the state alone).\<close>

inductive reachable :: "EntityManager \<Rightarrow> bool" where
  r_new: "reachable new_EntityManager"
| r_create: "reachable em \<Longrightarrow> create em = Inr (e, em1) \<Longrightarrow> reachable em1"
| r_destroyAll: "reachable em \<Longrightarrow> reachable (destroyAll em)"
| r_transform: "reachable em \<Longrightarrow> e \<in> set (entities em) \<Longrightarrow>
    reachable (em\<lparr>transforms := (transforms em)(e \<mapsto> t)\<rparr>)"
| r_sprite: "reachable em \<Longrightarrow> e \<in> set (entities em) \<Longrightarrow>
    reachable (em\<lparr>sprites := (sprites em)(e \<mapsto> sp)\<rparr>)"
| r_body: "reachable em \<Longrightarrow> e \<in> set (entities em) \<Longrightarrow>
    reachable (em\<lparr>bodies := (bodies em)(e \<mapsto> rb)\<rparr>)"
| r_control: "reachable em \<Longrightarrow> reachable (playerControlSystem player em inp speed)"
| r_physics: "reachable em \<Longrightarrow> reachable (physicsSystem em dt)"

text \<open>The shape of a registry: identifiers are handed out in order from 1, the live list
  holds exactly the identifiers handed out since the last reset, every live identifier has
  a \<^verbatim>\<open>Transform\<close>, and no table has an entry for an identifier that is not live.\<close>

definition registry_inv :: "EntityManager \<Rightarrow> bool" where
  "registry_inv em =
     (1 \<le> nextId em \<and> nextId em \<le> INT_MAX \<and> entities em = [1 .. nextId em - 1] \<and>
      dom (transforms em) = set (entities em) \<and>
      dom (sprites em) \<subseteq> set (entities em) \<and>
      dom (bodies em) \<subseteq> set (entities em))"

text \<open>The events that set \<^verbatim>\<open>quit\<close>.\<close>

definition quit_event :: "SDL_Event \<Rightarrow> bool" where
  "quit_event ev = (ev = SDL_QUIT \<or> ev = SDL_KEYDOWN SDLK_ESCAPE)"

text \<open>The axis value for a pair of opposite direction flags, as \<open>apply_axes\<close> computes it
  from a cleared axis.\<close>

definition axis_of :: "bool \<Rightarrow> bool \<Rightarrow> float" where
  "axis_of lo hi =
     (let a = (if lo then fsub (Fin 0) (Fin 1) else Fin 0) in if hi then fadd a (Fin 1) else a)"

text \<open>A registry with the single entity 1, which has the default \<^verbatim>\<open>Transform\<close> and a
  \<^verbatim>\<open>Rigidbody\<close> of velocity \<open>(vx, vy)\<close> and mass 1.\<close>

definition one_body :: "float \<Rightarrow> float \<Rightarrow> EntityManager" where
  "one_body vx vy =
     \<lparr>nextId = 2, entities = [1], transforms = [1 \<mapsto> default_Transform],
      sprites = Map.empty,
      bodies = [1 \<mapsto> \<lparr>vel = \<lparr>vec_x = vx, vec_y = vy\<rparr>, mass = Fin 1\<rparr>]\<rparr>"

text \<open>A registry with the single entity 1, which stands at \<open>(x, 0)\<close> with rotation 0 and
  scale (1, 1) and has a \<^verbatim>\<open>Rigidbody\<close> of velocity \<open>(vx, 0)\<close> and mass 1.\<close>

definition body_at :: "float \<Rightarrow> float \<Rightarrow> EntityManager" where
  "body_at x vx =
     \<lparr>nextId = 2, entities = [1],
      transforms = [1 \<mapsto> default_Transform\<lparr>pos := \<lparr>vec_x = x, vec_y = Fin 0\<rparr>\<rparr>],
      sprites = Map.empty,
      bodies = [1 \<mapsto> \<lparr>vel = \<lparr>vec_x = vx, vec_y = Fin 0\<rparr>, mass = Fin 1\<rparr>]\<rparr>"

text \<open>The entities \<^verbatim>\<open>renderSystem\<close> draws: those with a \<^verbatim>\<open>Sprite\<close> whose texture is not
  null and a \<^verbatim>\<open>Transform\<close>.\<close>

definition drawable :: "EntityManager \<Rightarrow> Entity \<Rightarrow> bool" where
  "drawable em e =
     (case (sprites em e, transforms em e) of
        (Some sp, Some tr) \<Rightarrow> tex sp \<noteq> 0
      | _ \<Rightarrow> False)"

text \<open>A registry with the single entity 1, which has the \<^verbatim>\<open>Transform\<close> \<open>tr\<close> and the
  \<^verbatim>\<open>Sprite\<close> \<open>sp\<close>.\<close>

definition one_sprite :: "Transform \<Rightarrow> Sprite \<Rightarrow> EntityManager" where
  "one_sprite tr sp =
     \<lparr>nextId = 2, entities = [1], transforms = [1 \<mapsto> tr], sprites = [1 \<mapsto> sp],
      bodies = Map.empty\<rparr>"

text \<open>The real value of a finite \<^verbatim>\<open>float\<close>, and the speed of a velocity.\<close>

fun fval :: "float \<Rightarrow> real" where
  "fval (Fin x) = x"
| "fval a = 0"

definition speed_of :: "Vec2 \<Rightarrow> real" where
  "speed_of v = sqrt ((fval (vec_x v))\<^sup>2 + (fval (vec_y v))\<^sup>2)"

section \<open>What the systems leave alone\<close>

lemma physics_entity_frame:
  "nextId (physics_entity dt em e) = nextId em"
  "entities (physics_entity dt em e) = entities em"
  "sprites (physics_entity dt em e) = sprites em"
  "dom (transforms (physics_entity dt em e)) = dom (transforms em)"
  "dom (bodies (physics_entity dt em e)) = dom (bodies em)"
  by (auto simp: physics_entity_def Let_def)

lemma foldl_physics_frame:
  "nextId (foldl (physics_entity dt) em es) = nextId em \<and>
   entities (foldl (physics_entity dt) em es) = entities em \<and>
   sprites (foldl (physics_entity dt) em es) = sprites em \<and>
   dom (transforms (foldl (physics_entity dt) em es)) = dom (transforms em) \<and>
   dom (bodies (foldl (physics_entity dt) em es)) = dom (bodies em)"
  by (induction es arbitrary: em) (simp_all add: physics_entity_frame)

lemma physicsSystem_frame:
  "nextId (physicsSystem em dt) = nextId em"
  "entities (physicsSystem em dt) = entities em"
  "sprites (physicsSystem em dt) = sprites em"
  "dom (transforms (physicsSystem em dt)) = dom (transforms em)"
  "dom (bodies (physicsSystem em dt)) = dom (bodies em)"
  by (simp_all add: physicsSystem_def foldl_physics_frame)

lemma playerControlSystem_frame:
  "nextId (playerControlSystem p em inp s) = nextId em"
  "entities (playerControlSystem p em inp s) = entities em"
  "sprites (playerControlSystem p em inp s) = sprites em"
  "transforms (playerControlSystem p em inp s) = transforms em"
  "dom (bodies (playerControlSystem p em inp s)) = dom (bodies em)"
  by (auto simp: playerControlSystem_def Let_def)

section \<open>The registry\<close>

lemma registry_inv_new: "registry_inv new_EntityManager"
  by (simp add: registry_inv_def new_EntityManager_def INT_MAX_def)

lemma registry_inv_create:
  assumes "registry_inv em" "create em = Inr (e, em1)"
  shows "registry_inv em1"
proof -
  from assms(2) have lt: "nextId em < INT_MAX" and e: "e = nextId em"
    and em1: "em1 = em\<lparr>nextId := e + 1, entities := entities em @ [e],
                   transforms := (transforms em)(e \<mapsto> default_Transform)\<rparr>"
    by (auto simp: create_def Let_def split: if_splits)
  from assms(1) have "1 \<le> nextId em" and ents: "entities em = [1 .. nextId em - 1]"
    by (simp_all add: registry_inv_def)
  then have "[1 .. nextId em] = [1 .. nextId em - 1] @ [nextId em]"
    by (simp add: upto_rec2)
  with assms(1) lt show ?thesis
    unfolding em1 e registry_inv_def by auto
qed

lemma reachable_inv: "reachable em \<Longrightarrow> registry_inv em"
proof (induction rule: reachable.induct)
  case r_new
  show ?case by (rule registry_inv_new)
next
  case (r_create em e em1)
  then show ?case by (blast intro: registry_inv_create)
next
  case (r_destroyAll em)
  then show ?case by (simp add: registry_inv_def destroyAll_def INT_MAX_def)
next
  case (r_transform em e t)
  then show ?case by (auto simp: registry_inv_def)
next
  case (r_sprite em e sp)
  then show ?case by (auto simp: registry_inv_def)
next
  case (r_body em e rb)
  then show ?case by (auto simp: registry_inv_def)
next
  case (r_control em player inp speed)
  then show ?case unfolding registry_inv_def playerControlSystem_frame by blast
next
  case (r_physics em dt)
  then show ?case unfolding registry_inv_def physicsSystem_frame by blast
qed

lemma registry_inv_distinct: "registry_inv em \<Longrightarrow> distinct (entities em)"
  by (simp add: registry_inv_def)

lemma destroyAll_new: "destroyAll em = new_EntityManager"
  by (simp add: destroyAll_def new_EntityManager_def)

text \<open>
  Claim C4. In a registry the program can reach, as long as \<^verbatim>\<open>nextId\<close> has not arrived at
  \<^verbatim>\<open>INT_MAX\<close> (where \<^verbatim>\<open>nextId++\<close> would overflow), \<^verbatim>\<open>create\<close> returns \<^verbatim>\<open>nextId\<close>. That
  identifier is not among the identifiers handed out since the registry was constructed or
  last reset, which are exactly \<open>1, ..., nextId - 1\<close> and make up the live list; it is
  appended to the live list, a default \<^verbatim>\<open>Transform\<close> (position (0,0), rotation 0, scale
  (1,1)) is stored for it, and the next identifier is one larger. The first identifier of a
  fresh registry is 1. \<^verbatim>\<open>destroyAll\<close> empties the live list and the three component tables
  and sets \<^verbatim>\<open>nextId\<close> back to 1, which is the state of a fresh registry.
\<close>

theorem create_fresh_destroyAll_resets:
  assumes "reachable em" and "nextId em < INT_MAX"
  shows "(\<exists>em1. create em = Inr (nextId em, em1) \<and>
            nextId em \<notin> set (entities em) \<and>
            set (entities em) = {1 ..< nextId em} \<and>
            entities em1 = entities em @ [nextId em] \<and>
            transforms em1 (nextId em) =
              Some \<lparr>pos = \<lparr>vec_x = Fin 0, vec_y = Fin 0\<rparr>, rot = Fin 0,
                    scale = \<lparr>vec_x = Fin 1, vec_y = Fin 1\<rparr>\<rparr> \<and>
            nextId em1 = nextId em + 1 \<and>
            reachable em1) \<and>
         nextId new_EntityManager = 1 \<and>
         entities (destroyAll em) = [] \<and>
         transforms (destroyAll em) = Map.empty \<and>
         sprites (destroyAll em) = Map.empty \<and>
         bodies (destroyAll em) = Map.empty \<and>
         nextId (destroyAll em) = 1 \<and>
         destroyAll em = new_EntityManager"
proof -
  let ?em1 = "em\<lparr>nextId := nextId em + 1, entities := entities em @ [nextId em],
                transforms := (transforms em)(nextId em \<mapsto> default_Transform)\<rparr>"
  have c: "create em = Inr (nextId em, ?em1)"
    using assms(2) by (simp add: create_def Let_def)
  from reachable_inv [OF assms(1)] have "entities em = [1 .. nextId em - 1]"
    by (simp add: registry_inv_def)
  then have s: "set (entities em) = {1 ..< nextId em}" by auto
  have "reachable ?em1" using assms(1) c by (rule r_create)
  with c s have "\<exists>em1. create em = Inr (nextId em, em1) \<and>
            nextId em \<notin> set (entities em) \<and>
            set (entities em) = {1 ..< nextId em} \<and>
            entities em1 = entities em @ [nextId em] \<and>
            transforms em1 (nextId em) = Some default_Transform \<and>
            nextId em1 = nextId em + 1 \<and>
            reachable em1"
    by auto
  then show ?thesis
    by (simp add: destroyAll_def new_EntityManager_def default_Transform_def)
qed

theorem create_fresh_destroyAll_resets_witness:
  "reachable new_EntityManager \<and> nextId new_EntityManager < INT_MAX \<and>
   (\<exists>em1. create new_EntityManager = Inr (1, em1) \<and> entities em1 = [1] \<and>
      transforms em1 1 = Some default_Transform \<and> nextId em1 = 2) \<and>
   destroyAll new_EntityManager = new_EntityManager"
proof -
  have lt: "nextId new_EntityManager < INT_MAX"
    by (simp add: new_EntityManager_def INT_MAX_def)
  from create_fresh_destroyAll_resets [OF r_new lt] lt r_new show ?thesis
    by (auto simp: new_EntityManager_def default_Transform_def)
qed

text \<open>
  Claim C7. In every state the program can reach by constructing the registry, creating
  entities, resetting, assigning components of created entities and running the control and
  the physics system (the render system has no access to change the state: it only returns
  renderer calls), the \<^verbatim>\<open>Transform\<close> table has an entry for exactly the identifiers of the
  live list, the \<^verbatim>\<open>Sprite\<close> and \<^verbatim>\<open>Rigidbody\<close> tables have entries for live identifiers
  only, every live identifier has exactly one \<^verbatim>\<open>Transform\<close>, and no identifier is twice
  in the live list.
\<close>

theorem reachable_tables_live:
  assumes "reachable em"
  shows "dom (transforms em) = set (entities em) \<and>
         dom (sprites em) \<subseteq> set (entities em) \<and>
         dom (bodies em) \<subseteq> set (entities em) \<and>
         (\<forall>e \<in> set (entities em). \<exists>!t. transforms em e = Some t) \<and>
         distinct (entities em)"
proof -
  from reachable_inv [OF assms] have inv: "registry_inv em" .
  then have d: "dom (transforms em) = set (entities em)"
    by (simp add: registry_inv_def)
  then have "\<forall>e \<in> set (entities em). \<exists>!t. transforms em e = Some t"
    by (metis domD option.inject)
  moreover from inv have "dom (sprites em) \<subseteq> set (entities em)"
    and "dom (bodies em) \<subseteq> set (entities em)"
    unfolding registry_inv_def by blast+
  ultimately show ?thesis
    using d registry_inv_distinct [OF inv] by blast
qed

theorem reachable_tables_live_witness:
  "reachable (new_EntityManager\<lparr>nextId := 2, entities := [1],
       transforms := [1 \<mapsto> default_Transform], bodies := [1 \<mapsto> default_Rigidbody]\<rparr>) \<and>
   dom [1 \<mapsto> default_Transform] = set [1::int] \<and>
   dom [1 \<mapsto> default_Rigidbody] \<subseteq> set [1::int] \<and>
   (\<exists>!t. [1 \<mapsto> default_Transform] (1::int) = Some t)"
proof -
  let ?em1 = "new_EntityManager\<lparr>nextId := 2, entities := [1],
       transforms := [1 \<mapsto> default_Transform]\<rparr>"
  have "create new_EntityManager = Inr (1, ?em1)"
    by (simp add: create_def new_EntityManager_def INT_MAX_def)
  with r_new have "reachable ?em1" by (rule r_create)
  then have "reachable (?em1\<lparr>bodies := (bodies ?em1)(1 \<mapsto> default_Rigidbody)\<rparr>)"
    by (rule r_body) simp
  then have r: "reachable (new_EntityManager\<lparr>nextId := 2, entities := [1],
       transforms := [1 \<mapsto> default_Transform], bodies := [1 \<mapsto> default_Rigidbody]\<rparr>)"
    by (simp add: new_EntityManager_def)
  from reachable_tables_live [OF r] r show ?thesis
    by (simp add: new_EntityManager_def)
qed

section \<open>Values of the arithmetic\<close>

lemmas fl32_eval = fl32_def round_to_def quantum_def expo_def rne_def Let_def compute_bitlen

lemma fl32_0: "fl32 0 = Fin 0"
  by (simp add: fl32_def round_to_def)

lemma fl32_1: "fl32 1 = Fin 1"
  by (simp add: fl32_eval)

lemma fl32_m1: "fl32 (- 1) = Fin (- 1)"
  by (simp add: fl32_eval)

lemma TARGET_DT_value: "TARGET_DT = Fin (8947849 / 536870912)"
  by (simp add: TARGET_DT_def fl32_eval)

lemma speed_value: "fmul (Fin 200) TARGET_DT = Fin (6990507 / 2097152)"
  by (simp add: TARGET_DT_value fl32_eval)

lemma damping_value: "damping = Fin (2055209 / 2097152)"
  by (simp add: damping_def fl32_eval)

lemma fadd_zero: "is_float a \<Longrightarrow> fadd a (Fin 0) = a"
  by (cases a) (simp_all add: is_float_def)

lemma fmul_zero: "is_finite b \<Longrightarrow> fmul (Fin 0) b = Fin 0"
  by (cases b) (simp_all add: is_finite_def fl32_0)

section \<open>The input snapshot\<close>

lemma poll_event_quit: "quit (poll_event inp ev) = (quit inp \<or> quit_event ev)"
proof (cases ev)
  case (SDL_KEYDOWN k)
  then show ?thesis by (cases k) (simp_all add: quit_event_def)
next
  case (SDL_KEYUP k)
  then show ?thesis by (cases k) (simp_all add: quit_event_def)
qed (simp_all add: quit_event_def)

lemma foldl_poll_quit:
  "quit (foldl poll_event inp evs) = (quit inp \<or> (\<exists>ev \<in> set evs. quit_event ev))"
  by (induction evs arbitrary: inp) (auto simp: poll_event_quit)

lemma poll_event_flags:
  assumes "left a = left b" "right a = right b" "up a = up b" "down a = down b"
  shows "left (poll_event a ev) = left (poll_event b ev) \<and>
         right (poll_event a ev) = right (poll_event b ev) \<and>
         up (poll_event a ev) = up (poll_event b ev) \<and>
         down (poll_event a ev) = down (poll_event b ev)"
proof (cases ev)
  case (SDL_KEYDOWN k)
  with assms show ?thesis by (cases k) simp_all
next
  case (SDL_KEYUP k)
  with assms show ?thesis by (cases k) simp_all
qed (simp_all add: assms)

lemma foldl_poll_flags:
  assumes "left a = left b" "right a = right b" "up a = up b" "down a = down b"
  shows "left (foldl poll_event a evs) = left (foldl poll_event b evs) \<and>
         right (foldl poll_event a evs) = right (foldl poll_event b evs) \<and>
         up (foldl poll_event a evs) = up (foldl poll_event b evs) \<and>
         down (foldl poll_event a evs) = down (foldl poll_event b evs)"
  using assms
proof (induction evs arbitrary: a b)
  case Nil
  then show ?case by simp
next
  case (Cons ev evs)
  from poll_event_flags [OF Cons.prems, of ev]
  have "left (foldl poll_event (poll_event a ev) evs) =
          left (foldl poll_event (poll_event b ev) evs) \<and>
        right (foldl poll_event (poll_event a ev) evs) =
          right (foldl poll_event (poll_event b ev) evs) \<and>
        up (foldl poll_event (poll_event a ev) evs) =
          up (foldl poll_event (poll_event b ev) evs) \<and>
        down (foldl poll_event (poll_event a ev) evs) =
          down (foldl poll_event (poll_event b ev) evs)"
    by (intro Cons.IH) simp_all
  then show ?case by simp
qed

lemma key_event_axes:
  "axisX (key_event dn k inp) = axisX inp" "axisY (key_event dn k inp) = axisY inp"
  by (cases k; simp)+

lemma poll_event_axes:
  "axisX (poll_event inp ev) = axisX inp" "axisY (poll_event inp ev) = axisY inp"
  by (cases ev; simp add: key_event_axes)+

lemma foldl_poll_axes:
  "axisX (foldl poll_event inp evs) = axisX inp \<and> axisY (foldl poll_event inp evs) = axisY inp"
  by (induction evs arbitrary: inp) (simp_all add: poll_event_axes)

lemma clear_input_eq:
  "clear_input inp = inp\<lparr>axisY := Fin 0, axisX := Fin 0, down := False, up := False,
     right := False, left := False\<rparr>"
  by (simp add: clear_input_def float_of_int_def fl32_0)

lemma apply_axes_eq:
  assumes "axisX p = Fin 0" "axisY p = Fin 0"
  shows "apply_axes p =
    p\<lparr>axisX := axis_of (left p) (right p), axisY := axis_of (up p) (down p)\<rparr>"
  by (cases "left p"; cases "right p"; cases "up p"; cases "down p")
     (simp_all add: apply_axes_def axis_of_def assms)

lemma axis_of_values:
  "axis_of False False = Fin 0" "axis_of True False = Fin (- 1)"
  "axis_of False True = Fin 1" "axis_of True True = Fin 0"
  by (simp_all add: axis_of_def fsub_def fl32_0 fl32_1 fl32_m1)

lemma processInput_eq:
  "processInput inp evs =
     (foldl poll_event (clear_input inp) evs)
       \<lparr>axisX := axis_of (left (foldl poll_event (clear_input inp) evs))
                   (right (foldl poll_event (clear_input inp) evs)),
        axisY := axis_of (up (foldl poll_event (clear_input inp) evs))
                   (down (foldl poll_event (clear_input inp) evs))\<rparr>"
  unfolding processInput_def
  by (rule apply_axes_eq) (simp_all add: foldl_poll_axes clear_input_eq)

text \<open>
  Claim C5. After every poll, whatever the snapshot was before and whatever events arrive,
  \<^verbatim>\<open>axisX\<close> is (+1 if \<^verbatim>\<open>right\<close> is set) + (-1 if \<^verbatim>\<open>left\<close> is set) and \<^verbatim>\<open>axisY\<close> is
  (+1 if \<^verbatim>\<open>down\<close> is set) + (-1 if \<^verbatim>\<open>up\<close> is set); so left together with right gives
  \<^verbatim>\<open>axisX = 0\<close>, up together with down gives \<^verbatim>\<open>axisY = 0\<close>, and each axis is one of
  -1, 0, 1.
\<close>

theorem processInput_axes:
  "axisX (processInput inp evs) =
     Fin ((if right (processInput inp evs) then 1 else 0) +
          (if left (processInput inp evs) then - 1 else 0)) \<and>
   axisY (processInput inp evs) =
     Fin ((if down (processInput inp evs) then 1 else 0) +
          (if up (processInput inp evs) then - 1 else 0)) \<and>
   (left (processInput inp evs) \<and> right (processInput inp evs) \<longrightarrow>
      axisX (processInput inp evs) = Fin 0) \<and>
   (up (processInput inp evs) \<and> down (processInput inp evs) \<longrightarrow>
      axisY (processInput inp evs) = Fin 0) \<and>
   axisX (processInput inp evs) \<in> {Fin (- 1), Fin 0, Fin 1} \<and>
   axisY (processInput inp evs) \<in> {Fin (- 1), Fin 0, Fin 1}"
  by (simp add: processInput_eq axis_of_values)

theorem processInput_axes_witness:
  "left (processInput new_InputState [SDL_KEYDOWN SDLK_a, SDL_KEYDOWN SDLK_d, SDL_KEYDOWN SDLK_s]) \<and>
   right (processInput new_InputState [SDL_KEYDOWN SDLK_a, SDL_KEYDOWN SDLK_d, SDL_KEYDOWN SDLK_s]) \<and>
   axisX (processInput new_InputState [SDL_KEYDOWN SDLK_a, SDL_KEYDOWN SDLK_d, SDL_KEYDOWN SDLK_s])
     = Fin 0 \<and>
   axisY (processInput new_InputState [SDL_KEYDOWN SDLK_a, SDL_KEYDOWN SDLK_d, SDL_KEYDOWN SDLK_s])
     = Fin 1"
  using processInput_axes
    [of new_InputState "[SDL_KEYDOWN SDLK_a, SDL_KEYDOWN SDLK_d, SDL_KEYDOWN SDLK_s]"]
  by (simp add: processInput_eq clear_input_eq new_InputState_def axis_of_values)

text \<open>
  Claim C9, as the code has it. Two polls that receive the same events end with the same
  direction flags and the same axes, whatever the two snapshots were before. The flag
  \<^verbatim>\<open>quit\<close> is not cleared by a poll: afterwards it is set when it was set before or when
  one of the events is \<^verbatim>\<open>SDL_QUIT\<close> or a press of Escape. So the two resulting snapshots
  are equal in every field when the two prior snapshots agree on \<^verbatim>\<open>quit\<close> (as they do
  in the main loop, which polls only while \<^verbatim>\<open>quit\<close> is false).
\<close>

theorem processInput_memory:
  "left (processInput a evs) = left (processInput b evs) \<and>
   right (processInput a evs) = right (processInput b evs) \<and>
   up (processInput a evs) = up (processInput b evs) \<and>
   down (processInput a evs) = down (processInput b evs) \<and>
   axisX (processInput a evs) = axisX (processInput b evs) \<and>
   axisY (processInput a evs) = axisY (processInput b evs) \<and>
   quit (processInput a evs) = (quit a \<or> (\<exists>ev \<in> set evs. quit_event ev)) \<and>
   (quit a = quit b \<longrightarrow> processInput a evs = processInput b evs)"
proof -
  let ?pa = "foldl poll_event (clear_input a) evs"
  let ?pb = "foldl poll_event (clear_input b) evs"
  have f: "left ?pa = left ?pb \<and> right ?pa = right ?pb \<and> up ?pa = up ?pb \<and> down ?pa = down ?pb"
    by (rule foldl_poll_flags) (simp_all add: clear_input_eq)
  have q: "quit (processInput c evs) = (quit c \<or> (\<exists>ev \<in> set evs. quit_event ev))" for c
    by (simp add: processInput_eq foldl_poll_quit clear_input_eq)
  have fields: "left (processInput a evs) = left (processInput b evs) \<and>
   right (processInput a evs) = right (processInput b evs) \<and>
   up (processInput a evs) = up (processInput b evs) \<and>
   down (processInput a evs) = down (processInput b evs) \<and>
   axisX (processInput a evs) = axisX (processInput b evs) \<and>
   axisY (processInput a evs) = axisY (processInput b evs)"
    using f by (simp add: processInput_eq)
  have "processInput a evs = processInput b evs" if "quit a = quit b"
  proof -
    from that q have "quit (processInput a evs) = quit (processInput b evs)" by simp
    with fields show ?thesis by (simp add: InputState.equality)
  qed
  with fields q show ?thesis by blast
qed

theorem processInput_memory_witness:
  "quit new_InputState = quit (new_InputState\<lparr>left := True, axisX := Fin (- 1)\<rparr>) \<and>
   processInput new_InputState [SDL_KEYDOWN SDLK_w, SDL_other] =
     processInput (new_InputState\<lparr>left := True, axisX := Fin (- 1)\<rparr>)
       [SDL_KEYDOWN SDLK_w, SDL_other] \<and>
   up (processInput new_InputState [SDL_KEYDOWN SDLK_w, SDL_other]) \<and>
   \<not> quit (processInput new_InputState [SDL_KEYDOWN SDLK_w, SDL_other])"
  using processInput_memory [of new_InputState "[SDL_KEYDOWN SDLK_w, SDL_other]"
      "new_InputState\<lparr>left := True, axisX := Fin (- 1)\<rparr>"]
  by (simp add: new_InputState_def quit_event_def processInput_eq clear_input_eq)

text \<open>The claim C9 as it is stated fails for \<^verbatim>\<open>quit\<close>: with no event at all, a poll that
  starts from a snapshot with \<^verbatim>\<open>quit\<close> set ends with \<^verbatim>\<open>quit\<close> set, and a poll that starts
  from the initial snapshot does not.\<close>

theorem processInput_quit_sticks:
  "quit (processInput (new_InputState\<lparr>quit := True\<rparr>) []) \<and>
   \<not> quit (processInput new_InputState [])"
  by (simp add: processInput_eq clear_input_eq new_InputState_def)

section \<open>The control system\<close>

lemma one_body_reachable: "reachable (one_body vx vy)"
proof -
  let ?em1 = "new_EntityManager\<lparr>nextId := 2, entities := [1],
       transforms := [1 \<mapsto> default_Transform]\<rparr>"
  have "create new_EntityManager = Inr (1, ?em1)"
    by (simp add: create_def new_EntityManager_def INT_MAX_def)
  with r_new have "reachable ?em1" by (rule r_create)
  then have "reachable (?em1\<lparr>bodies := (bodies ?em1)
      (1 \<mapsto> \<lparr>vel = \<lparr>vec_x = vx, vec_y = vy\<rparr>, mass = Fin 1\<rparr>)\<rparr>)"
    by (rule r_body) simp
  then show ?thesis
    by (simp add: new_EntityManager_def one_body_def)
qed

lemma press_d:
  "axisX (processInput new_InputState [SDL_KEYDOWN SDLK_d]) = Fin 1"
  "axisY (processInput new_InputState [SDL_KEYDOWN SDLK_d]) = Fin 0"
  by (simp_all add: processInput_eq clear_input_eq new_InputState_def axis_of_values)

lemma fl32_speed: "fl32 (6990507 / 2097152) = Fin (6990507 / 2097152)"
  by (simp add: fl32_eval)

text \<open>
  Claim C6. Whatever the controlled entity \<open>p\<close>, the snapshot and the speed: when \<open>p\<close>
  has a \<^verbatim>\<open>Rigidbody\<close>, the control system replaces its velocity \<open>v\<close> by
  \<open>v + axis * speed\<close>, component by component in \<^verbatim>\<open>float\<close> arithmetic, and leaves the
  mass; with both axes zero (and a finite speed) the velocity stays what it was. No other
  \<^verbatim>\<open>Rigidbody\<close>, no \<^verbatim>\<open>Transform\<close>, no \<^verbatim>\<open>Sprite\<close>, and neither the live list nor
  \<^verbatim>\<open>nextId\<close> changes. When \<open>p\<close> has no \<^verbatim>\<open>Rigidbody\<close> the call changes nothing.
\<close>

theorem playerControlSystem_adds:
  "(\<forall>rb. bodies em p = Some rb \<longrightarrow>
      bodies (playerControlSystem p em inp s) p =
        Some (rb\<lparr>vel := (vel rb)\<lparr>vec_x := fadd (vec_x (vel rb)) (fmul (axisX inp) s),
                                  vec_y := fadd (vec_y (vel rb)) (fmul (axisY inp) s)\<rparr>\<rparr>)) \<and>
   (\<forall>rb. bodies em p = Some rb \<and> axisX inp = Fin 0 \<and> axisY inp = Fin 0 \<and> is_finite s \<and>
        is_float (vec_x (vel rb)) \<and> is_float (vec_y (vel rb)) \<longrightarrow>
      bodies (playerControlSystem p em inp s) p = Some rb) \<and>
   (\<forall>e. e \<noteq> p \<longrightarrow> bodies (playerControlSystem p em inp s) e = bodies em e) \<and>
   transforms (playerControlSystem p em inp s) = transforms em \<and>
   sprites (playerControlSystem p em inp s) = sprites em \<and>
   entities (playerControlSystem p em inp s) = entities em \<and>
   nextId (playerControlSystem p em inp s) = nextId em \<and>
   (bodies em p = None \<longrightarrow> playerControlSystem p em inp s = em)"
  by (auto simp: playerControlSystem_def Let_def fadd_zero fmul_zero)

theorem playerControlSystem_adds_witness:
  "bodies (one_body (Fin 5) (Fin 0)) 1 =
     Some \<lparr>vel = \<lparr>vec_x = Fin 5, vec_y = Fin 0\<rparr>, mass = Fin 1\<rparr> \<and>
   bodies (playerControlSystem 1 (one_body (Fin 5) (Fin 0))
       (processInput new_InputState [SDL_KEYDOWN SDLK_d]) (Fin 2)) 1 =
     Some \<lparr>vel = \<lparr>vec_x = Fin 7, vec_y = Fin 0\<rparr>, mass = Fin 1\<rparr> \<and>
   bodies (playerControlSystem 1 (one_body (Fin 5) (Fin 0))
       (processInput new_InputState []) (Fin 2)) 1 =
     Some \<lparr>vel = \<lparr>vec_x = Fin 5, vec_y = Fin 0\<rparr>, mass = Fin 1\<rparr> \<and>
   bodies (one_body (Fin 5) (Fin 0)) 2 = None \<and>
   playerControlSystem 2 (one_body (Fin 5) (Fin 0))
       (processInput new_InputState [SDL_KEYDOWN SDLK_d]) (Fin 2) = one_body (Fin 5) (Fin 0)"
proof -
  have v: "fl32 7 = Fin 7" "fl32 5 = Fin 5" "fl32 2 = Fin 2"
    by (simp_all add: fl32_eval)
  have n: "axisX (processInput new_InputState []) = Fin 0"
    "axisY (processInput new_InputState []) = Fin 0"
    by (simp_all add: processInput_eq clear_input_eq new_InputState_def axis_of_values)
  show ?thesis
    using playerControlSystem_adds [of "one_body (Fin 5) (Fin 0)" 1
        "processInput new_InputState [SDL_KEYDOWN SDLK_d]" "Fin 2"]
      playerControlSystem_adds [of "one_body (Fin 5) (Fin 0)" 1
        "processInput new_InputState []" "Fin 2"]
      playerControlSystem_adds [of "one_body (Fin 5) (Fin 0)" 2
        "processInput new_InputState [SDL_KEYDOWN SDLK_d]" "Fin 2"]
    by (simp add: one_body_def press_d n v fl32_0 is_float_def is_finite_def)
qed

text \<open>
  Claim C8, as the code has it. The fixed-tick drain invokes the control system and the
  physics system. The control system writes no position: it leaves every \<^verbatim>\<open>Transform\<close>
  as it is, so the physics system is the only writer of positions in the drain. Velocities
  have two writers: the control system writes the \<^verbatim>\<open>Rigidbody\<close> of the controlled entity,
  of which it keeps the mass, and no other \<^verbatim>\<open>Rigidbody\<close>.
\<close>

theorem control_writes_no_position:
  "transforms (playerControlSystem p em inp s) = transforms em \<and>
   (\<forall>e. e \<noteq> p \<longrightarrow> bodies (playerControlSystem p em inp s) e = bodies em e) \<and>
   (\<forall>rb. bodies em p = Some rb \<longrightarrow>
      (\<exists>rb1. bodies (playerControlSystem p em inp s) p = Some rb1 \<and> mass rb1 = mass rb))"
  by (auto simp: playerControlSystem_def Let_def)

theorem control_writes_no_position_witness:
  "transforms (playerControlSystem 1 (one_body (Fin 0) (Fin 0))
       (processInput new_InputState [SDL_KEYDOWN SDLK_d]) (fmul (Fin 200) TARGET_DT)) =
     [1 \<mapsto> default_Transform] \<and>
   (2::int) \<noteq> 1 \<and>
   bodies (playerControlSystem 1 (one_body (Fin 0) (Fin 0))
       (processInput new_InputState [SDL_KEYDOWN SDLK_d]) (fmul (Fin 200) TARGET_DT)) 2 = None \<and>
   bodies (one_body (Fin 0) (Fin 0)) 1 =
     Some \<lparr>vel = \<lparr>vec_x = Fin 0, vec_y = Fin 0\<rparr>, mass = Fin 1\<rparr> \<and>
   (\<exists>rb1. bodies (playerControlSystem 1 (one_body (Fin 0) (Fin 0))
       (processInput new_InputState [SDL_KEYDOWN SDLK_d]) (fmul (Fin 200) TARGET_DT)) 1 = Some rb1 \<and>
      mass rb1 = Fin 1)"
  using control_writes_no_position [of 1 "one_body (Fin 0) (Fin 0)"
      "processInput new_InputState [SDL_KEYDOWN SDLK_d]" "fmul (Fin 200) TARGET_DT"]
  by (simp add: one_body_def)

text \<open>The claim C8 as it is stated fails for velocities: in a fixed tick with the key D
  held, the control system changes the velocity of the controlled entity from (0, 0) to
  (200 * TARGET_DT, 0).\<close>

theorem control_writes_velocity:
  "vel (the (bodies (one_body (Fin 0) (Fin 0)) 1)) = \<lparr>vec_x = Fin 0, vec_y = Fin 0\<rparr> \<and>
   vel (the (bodies (playerControlSystem 1 (one_body (Fin 0) (Fin 0))
          (processInput new_InputState [SDL_KEYDOWN SDLK_d]) (fmul (Fin 200) TARGET_DT)) 1)) =
     \<lparr>vec_x = Fin (6990507 / 2097152), vec_y = Fin 0\<rparr>"
  by (simp add: one_body_def playerControlSystem_def Let_def press_d speed_value fl32_speed
      fl32_0)

section \<open>Rounding to nearest\<close>

lemma rne_error: "\<bar>of_int (rne r) - r\<bar> \<le> 1 / 2"
proof -
  have "of_int \<lfloor>r\<rfloor> \<le> r" "r < of_int \<lfloor>r\<rfloor> + 1" by linarith+
  then show ?thesis
    by (auto simp: rne_def Let_def)
qed

lemma rne_of_int [simp]: "rne (of_int n) = n"
  by (simp add: rne_def)

lemma rne_0 [simp]: "rne 0 = 0"
  using rne_of_int [of 0] by simp

lemma rne_bounds: "\<lfloor>r\<rfloor> \<le> rne r \<and> rne r \<le> \<lfloor>r\<rfloor> + 1"
  by (simp add: rne_def Let_def)

lemma rne_mono:
  assumes "r \<le> s"
  shows "rne r \<le> rne s"
proof (cases "\<lfloor>r\<rfloor> = \<lfloor>s\<rfloor>")
  case True
  with assms have "r - of_int \<lfloor>r\<rfloor> \<le> s - of_int \<lfloor>s\<rfloor>" by simp
  with True show ?thesis
    by (auto simp: rne_def Let_def)
next
  case False
  with assms have "\<lfloor>r\<rfloor> < \<lfloor>s\<rfloor>"
    by (simp add: floor_mono order.strict_iff_order)
  with rne_bounds [of r] rne_bounds [of s] show ?thesis by linarith
qed

lemma rne_minus: "rne (- r) = - rne r"
proof (cases "r = of_int \<lfloor>r\<rfloor>")
  case True
  then obtain n where "r = of_int n" ..
  then show ?thesis
    by (metis of_int_minus rne_of_int)
next
  case False
  then have lt: "of_int \<lfloor>r\<rfloor> < r" by linarith
  have c: "\<lceil>r\<rceil> = \<lfloor>r\<rfloor> + 1"
    using False by (metis ceiling_altdef of_int_floor_cancel)
  have f: "\<lfloor>- r\<rfloor> = - \<lfloor>r\<rfloor> - 1"
    using c by (simp add: ceiling_def)
  show ?thesis
    using lt by (auto simp: rne_def Let_def f)
qed

lemma expo_bounds:
  assumes "x \<noteq> 0"
  shows "2 powi (expo x) \<le> \<bar>x\<bar> \<and> \<bar>x\<bar> < 2 powi (expo x + 1)"
proof (cases "1 \<le> \<bar>x\<bar>")
  case True
  define n where "n = \<lfloor>\<bar>x\<bar>\<rfloor>"
  have n: "1 \<le> n" "of_int n \<le> \<bar>x\<bar>" "\<bar>x\<bar> < of_int n + 1"
    using True by (simp_all add: n_def le_floor_iff)
  then have "0 < n" by simp
  from bitlen_bounds [OF this]
  have b: "2 ^ nat (bitlen n - 1) \<le> n" "n < 2 ^ nat (bitlen n)" by simp_all
  have b1: "1 \<le> bitlen n" using \<open>0 < n\<close> by (simp add: bitlen_alt_def)
  have e: "expo x = bitlen n - 1" using True by (simp add: expo_def n_def)
  have "(2::real) powi (bitlen n - 1) = 2 ^ nat (bitlen n - 1)"
    using b1 by (simp add: power_int_def)
  also have "\<dots> \<le> of_int n" using b(1) by (metis of_int_le_iff of_int_numeral of_int_power)
  finally have "2 powi (bitlen n - 1) \<le> \<bar>x\<bar>" using n(2) by linarith
  then have lo: "2 powi (expo x) \<le> \<bar>x\<bar>" unfolding e .
  have "n + 1 \<le> 2 ^ nat (bitlen n)" using b(2) by simp
  then have "of_int (n + 1) \<le> (2::real) ^ nat (bitlen n)"
    by (metis of_int_le_iff of_int_numeral of_int_power)
  then have "of_int n + 1 \<le> (2::real) ^ nat (bitlen n)" by simp
  with n(3) have "\<bar>x\<bar> < (2::real) ^ nat (bitlen n)" by linarith
  also have "\<dots> = 2 powi (bitlen n)" using b1 by (simp add: power_int_def)
  finally have "\<bar>x\<bar> < 2 powi (expo x + 1)" unfolding e by simp
  with lo show ?thesis by simp
next
  case False
  then have lt: "\<bar>x\<bar> < 1" by simp
  from assms have pos: "0 < \<bar>x\<bar>" by simp
  define y where "y = 1 / \<bar>x\<bar>"
  have y1: "1 < y" using lt pos by (simp add: y_def)
  define m where "m = \<lceil>y\<rceil> - 1"
  have m: "of_int m < y" "y \<le> of_int m + 1"
    unfolding m_def by linarith+
  have "1 < \<lceil>y\<rceil>" using y1 by (simp add: less_ceiling_iff)
  then have "0 < m" by (simp add: m_def)
  from bitlen_bounds [OF this]
  have b: "2 ^ nat (bitlen m - 1) \<le> m" "m < 2 ^ nat (bitlen m)" by simp_all
  have b1: "1 \<le> bitlen m" using \<open>0 < m\<close> by (simp add: bitlen_alt_def)
  have e: "expo x = - bitlen m" using False by (simp add: expo_def m_def y_def)
  have "(2::real) ^ nat (bitlen m - 1) \<le> of_int m"
    using b(1) by (metis of_int_le_iff of_int_numeral of_int_power)
  with m(1) have ylo: "(2::real) ^ nat (bitlen m - 1) < y" by linarith
  have "m + 1 \<le> 2 ^ nat (bitlen m)" using b(2) by simp
  then have "of_int (m + 1) \<le> (2::real) ^ nat (bitlen m)"
    by (metis of_int_le_iff of_int_numeral of_int_power)
  then have "of_int m + 1 \<le> (2::real) ^ nat (bitlen m)" by simp
  with m(2) have yhi: "y \<le> (2::real) ^ nat (bitlen m)" by linarith
  have x: "\<bar>x\<bar> = 1 / y" using pos by (simp add: y_def)
  have p1: "(2::real) powi (- bitlen m) = 1 / 2 ^ nat (bitlen m)"
    using b1 by (simp add: power_int_def field_simps)
  have p2: "(2::real) powi (- bitlen m + 1) = 1 / 2 ^ nat (bitlen m - 1)"
    using b1 by (simp add: power_int_def field_simps nat_diff_distrib)
  have "1 / 2 ^ nat (bitlen m) \<le> 1 / y"
    using yhi y1 by (simp add: frac_le)
  moreover have "1 / y < 1 / 2 ^ nat (bitlen m - 1)"
    using ylo by (simp add: frac_less2)
  ultimately show ?thesis
    unfolding e x p1 p2 by simp
qed

lemma pow2_less_iff: "(2::real) powi a < 2 powi b \<longleftrightarrow> a < b"
proof
  assume "(2::real) powi a < 2 powi b"
  show "a < b"
  proof (rule ccontr)
    assume "\<not> a < b"
    then have "b \<le> a" by simp
    then have "(2::real) powi b \<le> 2 powi a" by (rule power_int_increasing) simp
    with \<open>(2::real) powi a < 2 powi b\<close> show False by simp
  qed
next
  assume "a < b"
  then show "(2::real) powi a < 2 powi b" by (rule power_int_strict_increasing) simp
qed

lemma pow2_le_iff: "(2::real) powi a \<le> 2 powi b \<longleftrightarrow> a \<le> b"
  using pow2_less_iff [of b a] by (auto simp: not_less [symmetric])

lemma pow2_nat: "0 \<le> k \<Longrightarrow> (2::real) powi k = 2 ^ nat k"
  by (simp add: power_int_def)

lemma rne_pow2: "rne (2 ^ k) = 2 ^ k"
  using rne_of_int [of "2 ^ k"] by simp

lemma pow2_split: "(2::real) powi (a + b) = 2 powi a * 2 powi b"
  by (rule power_int_add) simp

lemma quantum_pos: "0 < quantum p emin x"
  by (simp add: quantum_def)

lemma round_to_error: "\<bar>round_to p emin x - x\<bar> \<le> quantum p emin x / 2"
proof (cases "x = 0")
  case True
  then show ?thesis using quantum_pos [of p emin x] by (simp add: round_to_def)
next
  case False
  let ?q = "quantum p emin x"
  have q: "0 < ?q" by (rule quantum_pos)
  have "of_int (rne (x / ?q)) * ?q - x = (of_int (rne (x / ?q)) - x / ?q) * ?q"
    using q by (simp add: field_simps)
  then have "\<bar>of_int (rne (x / ?q)) * ?q - x\<bar> = \<bar>of_int (rne (x / ?q)) - x / ?q\<bar> * ?q"
    using q by (simp add: abs_mult)
  also have "\<dots> \<le> 1 / 2 * ?q"
    using rne_error [of "x / ?q"] q by (simp add: mult_right_mono)
  finally show ?thesis using False by (simp add: round_to_def)
qed

lemma expo_minus: "expo (- x) = expo x"
  by (simp add: expo_def)

lemma quantum_minus: "quantum p emin (- x) = quantum p emin x"
  by (simp add: quantum_def expo_minus)

lemma round_to_minus: "round_to p emin (- x) = - round_to p emin x"
  by (simp add: round_to_def quantum_minus rne_minus)

lemma round_to_0: "round_to p emin 0 = 0"
  by (simp add: round_to_def)

lemma round_to_nonneg:
  assumes "0 \<le> x"
  shows "0 \<le> round_to p emin x"
proof -
  have "0 \<le> x / quantum p emin x"
    using assms quantum_pos [of p emin x] by simp
  from rne_mono [OF this] have "0 \<le> rne (x / quantum p emin x)" by simp
  then show ?thesis using quantum_pos [of p emin x] by (simp add: round_to_def)
qed

lemma expo_less: "x \<noteq> 0 \<Longrightarrow> \<bar>x\<bar> < 2 powi k \<Longrightarrow> expo x < k"
  using expo_bounds [of x] pow2_less_iff [of "expo x" k] by linarith

lemma expo_ge: "x \<noteq> 0 \<Longrightarrow> 2 powi k \<le> \<bar>x\<bar> \<Longrightarrow> k \<le> expo x"
  using expo_bounds [of x] pow2_less_iff [of k "expo x + 1"] by linarith

lemma expo_pow2: "expo (2 powi k) = k"
proof -
  have nz: "(2::real) powi k \<noteq> 0" by simp
  have "\<bar>(2::real) powi k\<bar> < 2 powi (k + 1)"
    by (simp add: pow2_less_iff)
  from expo_less [OF nz this] expo_ge [OF nz, of k] show ?thesis by simp
qed

lemma expo_mono: "0 < x \<Longrightarrow> x \<le> y \<Longrightarrow> expo x \<le> expo y"
proof -
  assume a: "0 < x" "x \<le> y"
  then have "2 powi (expo x) \<le> \<bar>y\<bar>" using expo_bounds [of x] by simp
  with a show ?thesis by (intro expo_ge) simp_all
qed

lemma round_to_upper:
  assumes "0 < x" "0 \<le> p"
  shows "round_to p emin x \<le> 2 powi (max (expo x) emin + 1)"
proof -
  define e where "e = max (expo x) emin"
  define q :: real where "q = 2 powi (e - p + 1)"
  have q: "0 < q" by (simp add: q_def)
  have qq: "quantum p emin x = q" by (simp add: quantum_def q_def e_def)
  have "(2::real) powi (e + 1) = 2 powi p * q"
    unfolding q_def pow2_split [symmetric] by simp
  then have top: "(2::real) powi (e + 1) = 2 ^ nat p * q"
    by (simp only: pow2_nat [OF assms(2)])
  have "x < 2 powi (expo x + 1)" using expo_bounds [of x] assms(1) by simp
  also have "\<dots> \<le> 2 powi (e + 1)" by (simp add: pow2_le_iff e_def)
  finally have "x / q < 2 ^ nat p" using q top by (simp add: field_simps)
  then have "rne (x / q) \<le> rne (2 ^ nat p)" by (intro rne_mono) simp
  then have "rne (x / q) \<le> 2 ^ nat p" by (simp only: rne_pow2)
  then have "(of_int (rne (x / q)) :: real) \<le> of_int (2 ^ nat p)" by (simp only: of_int_le_iff)
  then have "(of_int (rne (x / q)) :: real) \<le> 2 ^ nat p" by simp
  then have "of_int (rne (x / q)) * q \<le> 2 ^ nat p * q"
    using q by (simp only: mult_le_cancel_right_pos)
  then have "round_to p emin x \<le> 2 powi (e + 1)"
    unfolding top using assms(1) by (simp add: round_to_def qq)
  then show ?thesis unfolding e_def .
qed

lemma round_to_lower:
  assumes "0 < x" "1 \<le> p" "emin \<le> expo x"
  shows "2 powi (expo x) \<le> round_to p emin x"
proof -
  define q :: real where "q = 2 powi (expo x - p + 1)"
  have q: "0 < q" by (simp add: q_def)
  have qq: "quantum p emin x = q" using assms(3) by (simp add: quantum_def q_def max_def)
  have p1: "0 \<le> p - 1" using assms(2) by simp
  have "(2::real) powi (expo x) = 2 powi (p - 1) * q"
    unfolding q_def pow2_split [symmetric] by simp
  then have bot: "(2::real) powi (expo x) = 2 ^ nat (p - 1) * q"
    by (simp only: pow2_nat [OF p1])
  have "2 powi (expo x) \<le> x" using expo_bounds [of x] assms(1) by simp
  then have "2 ^ nat (p - 1) \<le> x / q" using q bot by (simp add: field_simps)
  then have "rne (2 ^ nat (p - 1)) \<le> rne (x / q)" by (intro rne_mono)
  then have "2 ^ nat (p - 1) \<le> rne (x / q)" by (simp only: rne_pow2)
  then have "(of_int (2 ^ nat (p - 1)) :: real) \<le> of_int (rne (x / q))"
    by (simp only: of_int_le_iff)
  then have "(2 ^ nat (p - 1) :: real) \<le> of_int (rne (x / q))" by simp
  then have "2 ^ nat (p - 1) * q \<le> of_int (rne (x / q)) * q"
    using q by (simp only: mult_le_cancel_right_pos)
  then show ?thesis
    unfolding bot using assms(1) by (simp add: round_to_def qq)
qed

lemma round_to_mono_pos:
  assumes "0 < x" "x \<le> y" "1 \<le> p"
  shows "round_to p emin x \<le> round_to p emin y"
proof -
  have y: "0 < y" using assms by simp
  have le: "max (expo x) emin \<le> max (expo y) emin"
    using expo_mono [OF assms(1,2)] by simp
  show ?thesis
  proof (cases "max (expo x) emin = max (expo y) emin")
    case True
    then have qq: "quantum p emin x = quantum p emin y" by (simp add: quantum_def)
    have "x / quantum p emin y \<le> y / quantum p emin y"
      using assms(2) quantum_pos [of p emin y] by (simp add: divide_right_mono)
    from rne_mono [OF this]
    have "of_int (rne (x / quantum p emin y)) * quantum p emin y
        \<le> of_int (rne (y / quantum p emin y)) * quantum p emin y"
      using quantum_pos [of p emin y] by (simp only: mult_le_cancel_right_pos of_int_le_iff)
    then show ?thesis using assms(1) y by (simp add: round_to_def qq)
  next
    case False
    with le have lt: "max (expo x) emin < max (expo y) emin" by linarith
    then have ey: "emin \<le> expo y" "max (expo y) emin = expo y" by linarith+
    have "round_to p emin x \<le> 2 powi (max (expo x) emin + 1)"
      using assms by (intro round_to_upper) simp_all
    also have "\<dots> \<le> 2 powi (expo y)" using lt ey unfolding pow2_le_iff by linarith
    also have "\<dots> \<le> round_to p emin y" using y assms(3) ey(1) by (rule round_to_lower)
    finally show ?thesis .
  qed
qed

lemma round_to_mono:
  assumes "x \<le> y" "1 \<le> p"
  shows "round_to p emin x \<le> round_to p emin y"
proof -
  consider "0 < x" | "x \<le> 0" "0 \<le> y" | "y < 0" by linarith
  then show ?thesis
  proof cases
    case 1
    then show ?thesis using assms by (rule round_to_mono_pos)
  next
    case 2
    from round_to_nonneg [of "- x" p emin] 2(1) have "round_to p emin x \<le> 0"
      by (simp add: round_to_minus)
    with round_to_nonneg [OF 2(2), of p emin] show ?thesis by simp
  next
    case 3
    then have "0 < - y" "- y \<le> - x" using assms(1) by simp_all
    from round_to_mono_pos [OF this assms(2), of emin] show ?thesis
      by (simp add: round_to_minus)
  qed
qed

lemma round_to_idem_pos:
  assumes "0 < x" "1 \<le> p"
  shows "round_to p emin (round_to p emin x) = round_to p emin x"
proof -
  define e where "e = max (expo x) emin"
  define q :: real where "q = 2 powi (e - p + 1)"
  define n where "n = rne (x / q)"
  define r where "r = round_to p emin x"
  have q: "0 < q" by (simp add: q_def)
  have qq: "quantum p emin x = q" by (simp add: quantum_def q_def e_def)
  have r: "r = of_int n * q" using assms(1) by (simp add: r_def round_to_def qq n_def)
  have r0: "0 \<le> r" unfolding r_def using assms(1) by (intro round_to_nonneg) simp
  have up: "r \<le> 2 powi (e + 1)"
    unfolding r_def e_def using assms by (intro round_to_upper) simp_all
  show ?thesis
  proof (cases "r = 0")
    case True
    then show ?thesis unfolding r_def by (simp add: round_to_0)
  next
    case False
    with r0 have rpos: "0 < r" by simp
    show ?thesis
    proof (cases "r = 2 powi (e + 1)")
      case True
      have er: "expo r = e + 1" unfolding True by (rule expo_pow2)
      have "emin \<le> e" by (simp add: e_def)
      then have qr: "quantum p emin r = 2 powi (e + 1 - p + 1)"
        by (simp add: quantum_def er max_def)
      have p1: "0 \<le> p - 1" using assms(2) by simp
      have "(2::real) powi (e + 1) = 2 powi ((p - 1) + (e + 1 - p + 1))"
        by (rule arg_cong [where f = "\<lambda>k. 2 powi k"]) simp
      also have "\<dots> = 2 powi (p - 1) * 2 powi (e + 1 - p + 1)"
        by (rule pow2_split)
      finally have split: "(2::real) powi (e + 1) = 2 ^ nat (p - 1) * 2 powi (e + 1 - p + 1)"
        by (simp only: pow2_nat [OF p1])
      then have "r / 2 powi (e + 1 - p + 1) = 2 ^ nat (p - 1)"
        unfolding True by simp
      then have "rne (r / quantum p emin r) = 2 ^ nat (p - 1)"
        unfolding qr by (simp only: rne_pow2)
      then have "round_to p emin r = 2 ^ nat (p - 1) * 2 powi (e + 1 - p + 1)"
        using rpos by (simp add: round_to_def qr)
      also have "\<dots> = r" unfolding True split ..
      finally show ?thesis unfolding r_def [symmetric] .
    next
      case False
      with up have "\<bar>r\<bar> < 2 powi (e + 1)" using rpos by simp
      from expo_less [OF _ this] rpos have le: "expo r \<le> e" by simp
      have ge: "e \<le> max (expo r) emin"
      proof (cases "emin \<le> expo x")
        case True
        from round_to_lower [OF assms True, folded r_def] rpos
        have "expo x \<le> expo r" by (intro expo_ge) simp_all
        with True show ?thesis by (simp add: e_def)
      next
        case False
        then show ?thesis by (simp add: e_def)
      qed
      have "emin \<le> e" by (simp add: e_def)
      with le ge have "max (expo r) emin = e" by simp
      then have qr: "quantum p emin r = q" by (simp add: quantum_def q_def)
      have "r / q = of_int n" using q r by simp
      then have n: "rne (r / q) = n" by (simp only: rne_of_int)
      have "round_to p emin r = of_int (rne (r / q)) * q"
        using rpos by (simp add: round_to_def qr)
      also have "\<dots> = of_int n * q" by (simp only: n)
      also have "\<dots> = r" by (simp only: r)
      finally show ?thesis unfolding r_def [symmetric] .
    qed
  qed
qed

lemma round_to_idem:
  assumes "1 \<le> p"
  shows "round_to p emin (round_to p emin x) = round_to p emin x"
proof -
  consider "0 < x" | "x = 0" | "x < 0" by linarith
  then show ?thesis
  proof cases
    case 1
    then show ?thesis using assms by (rule round_to_idem_pos)
  next
    case 2
    then show ?thesis by (simp add: round_to_0)
  next
    case 3
    then have "0 < - x" by simp
    from round_to_idem_pos [OF this assms, of emin] show ?thesis
      by (simp add: round_to_minus)
  qed
qed

section \<open>Rounding to binary32\<close>

lemma fl32_cases:
  obtains "fl32 x = Fin (round_to 24 (- 126) x)" "\<bar>round_to 24 (- 126) x\<bar> < 2 ^ 128"
  | "fl32 x = PInf" "2 ^ 128 \<le> round_to 24 (- 126) x"
  | "fl32 x = NInf" "round_to 24 (- 126) x \<le> - (2 ^ 128)"
  by (cases "2 ^ 128 \<le> round_to 24 (- 126) x"; cases "round_to 24 (- 126) x \<le> - (2 ^ 128)")
     (auto simp: fl32_def Let_def)

lemma fl32_finite:
  "\<bar>round_to 24 (- 126) x\<bar> < 2 ^ 128 \<Longrightarrow> fl32 x = Fin (round_to 24 (- 126) x)"
  by (auto simp: fl32_def Let_def)

lemma fl32_Fin_iff:
  "fl32 x = Fin r \<longleftrightarrow> r = round_to 24 (- 126) x \<and> \<bar>r\<bar> < 2 ^ 128"
  by (auto simp: fl32_def Let_def)

lemma is_float_Fin: "is_float (Fin v) \<longleftrightarrow> round_to 24 (- 126) v = v \<and> \<bar>v\<bar> < 2 ^ 128"
  by (auto simp: is_float_def fl32_Fin_iff)

lemma is_float_fl32: "is_float (fl32 x)"
proof (cases x rule: fl32_cases)
  case 1
  then show ?thesis by (simp add: is_float_Fin round_to_idem)
qed (simp_all add: is_float_def)

lemma quantum_le:
  assumes "x \<noteq> 0" "\<bar>x\<bar> < 2 powi k" "emin < k"
  shows "quantum p emin x \<le> 2 powi (k - p)"
proof -
  from expo_less [OF assms(1,2)] assms(3) have "max (expo x) emin - p + 1 \<le> k - p" by simp
  then show ?thesis unfolding quantum_def pow2_le_iff .
qed

lemma quantum_rel:
  assumes "x \<noteq> 0" "emin \<le> expo x"
  shows "quantum p emin x \<le> \<bar>x\<bar> * 2 powi (1 - p)"
proof -
  have "max (expo x) emin - p + 1 = expo x + (1 - p)" using assms(2) by simp
  then have "quantum p emin x = 2 powi (expo x + (1 - p))"
    unfolding quantum_def by (rule arg_cong)
  also have "\<dots> = 2 powi (expo x) * 2 powi (1 - p)" by (rule pow2_split)
  also have "\<dots> \<le> \<bar>x\<bar> * 2 powi (1 - p)"
    using expo_bounds [OF assms(1)] by (simp add: mult_right_mono)
  finally show ?thesis .
qed

lemma quantum_sub:
  assumes "expo x \<le> emin"
  shows "quantum p emin x = 2 powi (emin - p + 1)"
  using assms by (simp add: quantum_def max_def)

text \<open>Subtracting the time step from an accumulator below \<open>2 ^ 19\<close>.\<close>

lemma fsub_TARGET_DT:
  assumes "8947849 / 536870912 \<le> a" "a < 2 ^ 19"
  shows "\<exists>b. fsub (Fin a) TARGET_DT = Fin b \<and> 0 \<le> b \<and> b \<le> a - 1 / 1024"
proof -
  define y where "y = a - 8947849 / 536870912"
  define b where "b = round_to 24 (- 126) y"
  have y: "0 \<le> y" "y < 2 ^ 19" using assms by (simp_all add: y_def)
  have b0: "0 \<le> b" unfolding b_def using y(1) by (rule round_to_nonneg)
  have up: "b \<le> y + 1 / 64"
  proof (cases "y = 0")
    case True
    then show ?thesis by (simp add: b_def round_to_0)
  next
    case False
    have "\<bar>y\<bar> < 2 powi 19" using y by simp
    from quantum_le [OF False this, of "- 126" 24]
    have "quantum 24 (- 126) y \<le> 1 / 32" by (simp add: power_int_minus_divide)
    with round_to_error [of 24 "- 126" y] show ?thesis
      unfolding b_def by linarith
  qed
  then have le: "b \<le> a - 1 / 1024" by (simp add: y_def)
  with b0 assms(2) have "\<bar>b\<bar> < 2 ^ 128" by simp
  then have "fl32 y = Fin b" unfolding b_def by (rule fl32_finite)
  then have "fsub (Fin a) TARGET_DT = Fin b"
    by (simp add: fsub_def TARGET_DT_value y_def)
  with b0 le show ?thesis by blast
qed

section \<open>The inner loop\<close>

lemma sub_funpow:
  "((\<lambda>x. fsub x TARGET_DT) ^^ Suc n) a = ((\<lambda>x. fsub x TARGET_DT) ^^ n) (fsub a TARGET_DT)"
  using funpow_swap1 [of "\<lambda>x. fsub x TARGET_DT" n a] by simp

lemma drain_step:
  "fge acc TARGET_DT \<Longrightarrow>
     drain p inp em acc calls =
       drain p inp (fixed_tick p inp em) (fsub acc TARGET_DT)
         (calls @ [Call_playerControlSystem, Call_physicsSystem])"
  by (subst drain.simps) simp

lemma drain_stop:
  "\<not> fge acc TARGET_DT \<Longrightarrow> drain p inp em acc calls = Some (em, acc, calls)"
  by (subst drain.simps) simp

lemma drain_terminates:
  assumes "a < 2 ^ 19"
  shows "\<exists>n. drain p inp em (Fin a) calls =
            Some ((fixed_tick p inp ^^ n) em, ((\<lambda>x. fsub x TARGET_DT) ^^ n) (Fin a),
                  calls @ concat (replicate n [Call_playerControlSystem, Call_physicsSystem])) \<and>
          \<not> fge (((\<lambda>x. fsub x TARGET_DT) ^^ n) (Fin a)) TARGET_DT \<and>
          (\<forall>k<n. fge (((\<lambda>x. fsub x TARGET_DT) ^^ k) (Fin a)) TARGET_DT)"
  using assms
proof (induction "nat \<lfloor>a * 1024\<rfloor>" arbitrary: a em calls rule: less_induct)
  case less
  show ?case
  proof (cases "fge (Fin a) TARGET_DT")
    case False
    then have "drain p inp em (Fin a) calls =
            Some ((fixed_tick p inp ^^ 0) em, ((\<lambda>x. fsub x TARGET_DT) ^^ 0) (Fin a),
                  calls @ concat (replicate 0 [Call_playerControlSystem, Call_physicsSystem])) \<and>
          \<not> fge (((\<lambda>x. fsub x TARGET_DT) ^^ 0) (Fin a)) TARGET_DT \<and>
          (\<forall>k<0. fge (((\<lambda>x. fsub x TARGET_DT) ^^ k) (Fin a)) TARGET_DT)"
      by (simp add: drain_stop)
    then show ?thesis by (rule exI)
  next
    case True
    then have ge: "8947849 / 536870912 \<le> a" by (simp add: TARGET_DT_value)
    from fsub_TARGET_DT [OF ge less.prems]
    obtain b where b: "fsub (Fin a) TARGET_DT = Fin b" "0 \<le> b" "b \<le> a - 1 / 1024"
      by blast
    have "b * 1024 \<le> a * 1024 - 1" using b(3) by simp
    then have "\<lfloor>b * 1024\<rfloor> \<le> \<lfloor>a * 1024 - 1\<rfloor>" by (rule floor_mono)
    then have f: "\<lfloor>b * 1024\<rfloor> \<le> \<lfloor>a * 1024\<rfloor> - 1" by simp
    have "1 \<le> a * 1024" using ge by simp
    then have "1 \<le> \<lfloor>a * 1024\<rfloor>" by (simp add: le_floor_iff)
    with f have m: "nat \<lfloor>b * 1024\<rfloor> < nat \<lfloor>a * 1024\<rfloor>" by linarith
    have "b < 2 ^ 19" using b(3) less.prems by simp
    from less.hyps [OF m this, of "fixed_tick p inp em"
        "calls @ [Call_playerControlSystem, Call_physicsSystem]"]
    obtain n where n:
      "drain p inp (fixed_tick p inp em) (Fin b)
         (calls @ [Call_playerControlSystem, Call_physicsSystem]) =
       Some ((fixed_tick p inp ^^ n) (fixed_tick p inp em),
             ((\<lambda>x. fsub x TARGET_DT) ^^ n) (Fin b),
             (calls @ [Call_playerControlSystem, Call_physicsSystem]) @
               concat (replicate n [Call_playerControlSystem, Call_physicsSystem]))"
      "\<not> fge (((\<lambda>x. fsub x TARGET_DT) ^^ n) (Fin b)) TARGET_DT"
      "\<forall>k<n. fge (((\<lambda>x. fsub x TARGET_DT) ^^ k) (Fin b)) TARGET_DT"
      by blast
    have "drain p inp em (Fin a) calls =
            Some ((fixed_tick p inp ^^ Suc n) em, ((\<lambda>x. fsub x TARGET_DT) ^^ Suc n) (Fin a),
                  calls @ concat (replicate (Suc n) [Call_playerControlSystem, Call_physicsSystem]))"
      using n(1) by (simp only: drain_step [OF True] b(1) sub_funpow funpow_Suc_right o_apply
          replicate_Suc concat.simps append_assoc)
    moreover have "\<not> fge (((\<lambda>x. fsub x TARGET_DT) ^^ Suc n) (Fin a)) TARGET_DT"
      unfolding sub_funpow b(1) by (rule n(2))
    moreover have "\<forall>k<Suc n. fge (((\<lambda>x. fsub x TARGET_DT) ^^ k) (Fin a)) TARGET_DT"
    proof (intro allI impI)
      fix k assume "k < Suc n"
      show "fge (((\<lambda>x. fsub x TARGET_DT) ^^ k) (Fin a)) TARGET_DT"
      proof (cases k)
        case 0
        with True show ?thesis by simp
      next
        case (Suc j)
        with \<open>k < Suc n\<close> n(3) have "fge (((\<lambda>x. fsub x TARGET_DT) ^^ j) (Fin b)) TARGET_DT"
          by simp
        then show ?thesis unfolding Suc sub_funpow b(1) .
      qed
    qed
    ultimately show ?thesis by blast
  qed
qed

lemma drain_some_not_absorbed:
  assumes "drain p inp em acc calls = Some r"
  shows "acc \<noteq> Fin 1048576"
proof (rule drain.raw_induct [where P = "\<lambda>p inp em acc calls r. acc \<noteq> Fin 1048576", OF _ assms])
  fix d :: "Entity \<Rightarrow> InputState \<Rightarrow> EntityManager \<Rightarrow> float \<Rightarrow> sys_call list \<Rightarrow>
     (EntityManager \<times> float \<times> sys_call list) option"
  fix p inp em acc calls r
  assume IH: "\<And>p inp em acc calls r. d p inp em acc calls = Some r \<Longrightarrow> acc \<noteq> Fin 1048576"
    and eq: "(if fge acc TARGET_DT
      then d p inp (fixed_tick p inp em) (fsub acc TARGET_DT)
            (calls @ [Call_playerControlSystem, Call_physicsSystem])
      else Some (em, acc, calls)) = Some r"
  show "acc \<noteq> Fin 1048576"
  proof
    assume acc: "acc = Fin 1048576"
    then have ge: "fge acc TARGET_DT" by (simp add: TARGET_DT_value)
    have "fsub acc TARGET_DT = Fin 1048576"
      unfolding acc by (simp add: fsub_def TARGET_DT_value fl32_eval)
    with eq ge have "d p inp (fixed_tick p inp em) (Fin 1048576)
          (calls @ [Call_playerControlSystem, Call_physicsSystem]) = Some r"
      by simp
    from IH [OF this] show False by simp
  qed
qed

lemma drain_absorbed: "drain p inp em (Fin 1048576) calls = None"
  using drain_some_not_absorbed [of p inp em "Fin 1048576" calls] by (cases "drain p inp em (Fin 1048576) calls") auto

lemma elapsed_30: "float_of_double (fl64 (1 / 30)) = Fin (8947849 / 268435456)"
  by (simp add: fl64_def fl32_eval)

lemma fl32_2dt: "fl32 (8947849 / 268435456) = Fin (8947849 / 268435456)"
  by (simp add: fl32_eval)

lemma fsub_2dt: "fsub (Fin (8947849 / 268435456)) TARGET_DT = TARGET_DT"
  by (simp add: fsub_def TARGET_DT_value fl32_eval)

lemma fsub_dt: "fsub TARGET_DT TARGET_DT = Fin 0"
  by (simp add: fsub_def TARGET_DT_value fl32_0)

lemma drain_two_ticks:
  "drain p inp em (Fin (8947849 / 268435456)) calls =
     Some (fixed_tick p inp (fixed_tick p inp em), Fin 0,
           calls @ [Call_playerControlSystem, Call_physicsSystem,
                    Call_playerControlSystem, Call_physicsSystem])"
proof -
  have g2: "fge (Fin (8947849 / 268435456)) TARGET_DT" by (simp add: TARGET_DT_value)
  have g1: "fge TARGET_DT TARGET_DT" by (simp add: TARGET_DT_value)
  have g0: "\<not> fge (Fin 0) TARGET_DT" by (simp add: TARGET_DT_value)
  show ?thesis
    by (simp add: drain_step [OF g2] fsub_2dt drain_step [OF g1] fsub_dt drain_stop [OF g0])
qed

lemma render_nothing:
  assumes "sprites em = Map.empty"
  shows "renderSystem em =
    Inr [SDL_SetRenderDrawColor 50 50 60 255, SDL_RenderClear, SDL_RenderPresent]"
proof -
  have "render_entities em es = Inr []" for es
    by (induction es) (simp_all add: assms)
  then show ?thesis by (simp add: renderSystem_def)
qed

lemma fixed_tick_frame:
  "sprites (fixed_tick p inp em) = sprites em"
  "entities (fixed_tick p inp em) = entities em"
  "nextId (fixed_tick p inp em) = nextId em"
  by (simp_all add: fixed_tick_def physicsSystem_frame playerControlSystem_frame)

text \<open>
  Claim C2, as the code has it. Take an outer-loop iteration in which the accumulator,
  once the elapsed time (converted to \<^verbatim>\<open>float\<close>) has been added, is a finite number
  below \<open>2 ^ 19\<close> seconds. Then the iteration completes, and for some number \<open>n\<close> of
  fixed ticks (zero or more): the systems invoked are \<^verbatim>\<open>processInput\<close> once, then \<open>n\<close>
  times the control system followed by the physics system, then \<^verbatim>\<open>renderSystem\<close> once;
  the registry is the one \<open>n\<close> fixed ticks produce (each tick runs the control system with
  speed \<open>200 * TARGET_DT\<close> and then the physics system with step \<open>TARGET_DT\<close>); the
  accumulator is the sum with \<open>TARGET_DT\<close> subtracted \<open>n\<close> times; it was at least
  \<open>TARGET_DT\<close> before each of the \<open>n\<close> ticks and is below \<open>TARGET_DT\<close> at the end.
  The renderer calls of the frame are those of the one \<^verbatim>\<open>renderSystem\<close> run (unless a
  conversion to \<^verbatim>\<open>int\<close> in it is out of range, which is undefined behaviour).
  In particular, from an accumulator of 0 and an elapsed time of 1/30 s (as a \<^verbatim>\<open>double\<close>)
  there are exactly two fixed ticks, the accumulator ends as exactly 0 and
  \<^verbatim>\<open>renderSystem\<close> runs once.
\<close>

theorem outer_iteration_drains:
  assumes "fadd (ls_accumulator st) (float_of_double elapsed) = Fin a" and "a < 2 ^ 19"
  shows "(\<exists>n. outer_iteration p st elapsed evs =
             Some (case renderSystem ((fixed_tick p (processInput (ls_input st) evs) ^^ n) (ls_em st)) of
                     Inl err \<Rightarrow> Inl err
                   | Inr frame \<Rightarrow>
                       Inr (\<lparr>ls_em = (fixed_tick p (processInput (ls_input st) evs) ^^ n) (ls_em st),
                             ls_input = processInput (ls_input st) evs,
                             ls_accumulator = ((\<lambda>x. fsub x TARGET_DT) ^^ n) (Fin a)\<rparr>,
                            frame,
                            [Call_processInput] @
                              concat (replicate n [Call_playerControlSystem, Call_physicsSystem]) @
                              [Call_renderSystem])) \<and>
             \<not> fge (((\<lambda>x. fsub x TARGET_DT) ^^ n) (Fin a)) TARGET_DT \<and>
             (\<forall>k<n. fge (((\<lambda>x. fsub x TARGET_DT) ^^ k) (Fin a)) TARGET_DT)) \<and>
         (\<forall>inp em. fixed_tick p inp em =
             physicsSystem (playerControlSystem p em inp (fmul (Fin 200) TARGET_DT)) TARGET_DT) \<and>
         (ls_accumulator st = Fin 0 \<and> elapsed = fl64 (1 / 30) \<longrightarrow>
            outer_iteration p st elapsed evs =
              Some (case renderSystem (fixed_tick p (processInput (ls_input st) evs)
                           (fixed_tick p (processInput (ls_input st) evs) (ls_em st))) of
                      Inl err \<Rightarrow> Inl err
                    | Inr frame \<Rightarrow>
                        Inr (\<lparr>ls_em = fixed_tick p (processInput (ls_input st) evs)
                                 (fixed_tick p (processInput (ls_input st) evs) (ls_em st)),
                              ls_input = processInput (ls_input st) evs,
                              ls_accumulator = Fin 0\<rparr>,
                             frame,
                             [Call_processInput, Call_playerControlSystem, Call_physicsSystem,
                              Call_playerControlSystem, Call_physicsSystem, Call_renderSystem])))"
proof -
  let ?inp = "processInput (ls_input st) evs"
  from drain_terminates [OF assms(2), of p ?inp "ls_em st" "[Call_processInput]"]
  obtain n where n:
    "drain p ?inp (ls_em st) (Fin a) [Call_processInput] =
       Some ((fixed_tick p ?inp ^^ n) (ls_em st), ((\<lambda>x. fsub x TARGET_DT) ^^ n) (Fin a),
             [Call_processInput] @ concat (replicate n [Call_playerControlSystem, Call_physicsSystem]))"
    "\<not> fge (((\<lambda>x. fsub x TARGET_DT) ^^ n) (Fin a)) TARGET_DT"
    "\<forall>k<n. fge (((\<lambda>x. fsub x TARGET_DT) ^^ k) (Fin a)) TARGET_DT"
    by blast
  have one: "\<exists>n. outer_iteration p st elapsed evs =
             Some (case renderSystem ((fixed_tick p ?inp ^^ n) (ls_em st)) of
                     Inl err \<Rightarrow> Inl err
                   | Inr frame \<Rightarrow>
                       Inr (\<lparr>ls_em = (fixed_tick p ?inp ^^ n) (ls_em st),
                             ls_input = ?inp,
                             ls_accumulator = ((\<lambda>x. fsub x TARGET_DT) ^^ n) (Fin a)\<rparr>,
                            frame,
                            [Call_processInput] @
                              concat (replicate n [Call_playerControlSystem, Call_physicsSystem]) @
                              [Call_renderSystem])) \<and>
             \<not> fge (((\<lambda>x. fsub x TARGET_DT) ^^ n) (Fin a)) TARGET_DT \<and>
             (\<forall>k<n. fge (((\<lambda>x. fsub x TARGET_DT) ^^ k) (Fin a)) TARGET_DT)"
    using n by (intro exI [of _ n]) (simp add: outer_iteration_def Let_def assms(1) split: sum.splits)
  have two: "outer_iteration p st elapsed evs =
              Some (case renderSystem (fixed_tick p ?inp (fixed_tick p ?inp (ls_em st))) of
                      Inl err \<Rightarrow> Inl err
                    | Inr frame \<Rightarrow>
                        Inr (\<lparr>ls_em = fixed_tick p ?inp (fixed_tick p ?inp (ls_em st)),
                              ls_input = ?inp,
                              ls_accumulator = Fin 0\<rparr>,
                             frame,
                             [Call_processInput, Call_playerControlSystem, Call_physicsSystem,
                              Call_playerControlSystem, Call_physicsSystem, Call_renderSystem]))"
    if "ls_accumulator st = Fin 0" "elapsed = fl64 (1 / 30)"
    by (simp add: outer_iteration_def Let_def that elapsed_30 fl32_2dt drain_two_ticks split: sum.splits)
  from one two show ?thesis by (simp add: fixed_tick_def)
qed

theorem outer_iteration_drains_witness:
  "fadd (ls_accumulator (loop_start (one_body (Fin 0) (Fin 0)))) (float_of_double (fl64 (1 / 30))) =
     Fin (8947849 / 268435456) \<and>
   (8947849 / 268435456 :: real) < 2 ^ 19 \<and>
   (\<exists>em1 inp1. outer_iteration 1 (loop_start (one_body (Fin 0) (Fin 0))) (fl64 (1 / 30)) [] =
      Some (Inr (\<lparr>ls_em = em1, ls_input = inp1, ls_accumulator = Fin 0\<rparr>,
                 [SDL_SetRenderDrawColor 50 50 60 255, SDL_RenderClear, SDL_RenderPresent],
                 [Call_processInput, Call_playerControlSystem, Call_physicsSystem,
                  Call_playerControlSystem, Call_physicsSystem, Call_renderSystem])))"
proof -
  have a: "fadd (ls_accumulator (loop_start (one_body (Fin 0) (Fin 0))))
      (float_of_double (fl64 (1 / 30))) = Fin (8947849 / 268435456)"
    by (simp add: loop_start_def elapsed_30 fl32_2dt)
  have b: "(8947849 / 268435456 :: real) < 2 ^ 19" by simp
  have r: "renderSystem (fixed_tick 1 inp (fixed_tick 1 inp (one_body (Fin 0) (Fin 0)))) =
      Inr [SDL_SetRenderDrawColor 50 50 60 255, SDL_RenderClear, SDL_RenderPresent]" for inp
    by (rule render_nothing) (simp add: fixed_tick_frame one_body_def)
  from outer_iteration_drains [OF a b, of 1 "[]"] a b show ?thesis
    by (simp add: r loop_start_def)
qed

text \<open>The claim C2 as it is stated fails when the accumulator is so large that
  subtracting \<open>TARGET_DT\<close> from it rounds back to the same \<^verbatim>\<open>float\<close>: after an elapsed time
  of \<open>2 ^ 20\<close> seconds the inner loop never ends, so the iteration never reaches
  \<^verbatim>\<open>renderSystem\<close>.\<close>

theorem outer_iteration_absorbed:
  "outer_iteration 1 (loop_start (one_body (Fin 0) (Fin 0))) (Fin 1048576) [] = None"
proof -
  have "fl32 1048576 = Fin 1048576" by (simp add: fl32_eval)
  then show ?thesis
    by (simp add: outer_iteration_def Let_def loop_start_def drain_absorbed)
qed

section \<open>The physics system\<close>

lemma physics_entity_other:
  "e' \<noteq> e \<Longrightarrow> transforms (physics_entity dt em e) e' = transforms em e' \<and>
     bodies (physics_entity dt em e) e' = bodies em e'"
  by (simp add: physics_entity_def Let_def)

lemma physics_entity_skip:
  "bodies em e = None \<or> transforms em e = None \<Longrightarrow> physics_entity dt em e = em"
  by (simp add: physics_entity_def)

lemma physics_entity_self:
  assumes "bodies em e = Some rb" "transforms em e = Some t"
  shows "transforms (physics_entity dt em e) e =
           Some (t\<lparr>pos := (pos t)\<lparr>vec_x := fadd (vec_x (pos t)) (fmul (vec_x (vel rb)) dt),
                                vec_y := fadd (vec_y (pos t)) (fmul (vec_y (vel rb)) dt)\<rparr>\<rparr>) \<and>
         bodies (physics_entity dt em e) e =
           Some (rb\<lparr>vel := (vel rb)\<lparr>vec_x := fmul (vec_x (vel rb)) damping,
                                   vec_y := fmul (vec_y (vel rb)) damping\<rparr>\<rparr>)"
  using assms by (simp add: physics_entity_def Let_def)

lemma physics_entity_local:
  assumes "transforms em1 e = transforms em2 e" "bodies em1 e = bodies em2 e"
  shows "transforms (physics_entity dt em1 e) e = transforms (physics_entity dt em2 e) e \<and>
         bodies (physics_entity dt em1 e) e = bodies (physics_entity dt em2 e) e"
  using assms by (simp add: physics_entity_def Let_def)

lemma foldl_physics_notin:
  "e \<notin> set es \<Longrightarrow>
     transforms (foldl (physics_entity dt) em es) e = transforms em e \<and>
     bodies (foldl (physics_entity dt) em es) e = bodies em e"
  by (induction es arbitrary: em) (simp_all add: physics_entity_other)

lemma foldl_physics_in:
  "distinct es \<Longrightarrow> e \<in> set es \<Longrightarrow>
     transforms (foldl (physics_entity dt) em es) e = transforms (physics_entity dt em e) e \<and>
     bodies (foldl (physics_entity dt) em es) e = bodies (physics_entity dt em e) e"
proof (induction es arbitrary: em)
  case Nil
  then show ?case by simp
next
  case (Cons x xs)
  show ?case
  proof (cases "x = e")
    case True
    with Cons.prems have "e \<notin> set xs" by simp
    from foldl_physics_notin [OF this] True show ?thesis by simp
  next
    case False
    with Cons.prems have "distinct xs" "e \<in> set xs" by simp_all
    from Cons.IH [OF this, of "physics_entity dt em x"]
      physics_entity_local [of "physics_entity dt em x" e em dt]
      physics_entity_other [of e x dt em] False
    show ?thesis by simp
  qed
qed

lemma physicsSystem_at:
  assumes "distinct (entities em)" "e \<in> set (entities em)"
    "bodies em e = Some rb" "transforms em e = Some t"
  shows "transforms (physicsSystem em dt) e =
           Some (t\<lparr>pos := (pos t)\<lparr>vec_x := fadd (vec_x (pos t)) (fmul (vec_x (vel rb)) dt),
                                vec_y := fadd (vec_y (pos t)) (fmul (vec_y (vel rb)) dt)\<rparr>\<rparr>) \<and>
         bodies (physicsSystem em dt) e =
           Some (rb\<lparr>vel := (vel rb)\<lparr>vec_x := fmul (vec_x (vel rb)) damping,
                                   vec_y := fmul (vec_y (vel rb)) damping\<rparr>\<rparr>)"
  unfolding physicsSystem_def
  using foldl_physics_in [OF assms(1,2), of dt em] physics_entity_self [OF assms(3,4), of dt]
  by simp

lemma physicsSystem_skip:
  assumes "distinct (entities em)"
    "e \<notin> set (entities em) \<or> bodies em e = None \<or> transforms em e = None"
  shows "transforms (physicsSystem em dt) e = transforms em e \<and>
         bodies (physicsSystem em dt) e = bodies em e"
proof (cases "e \<in> set (entities em)")
  case True
  with assms(2) have "physics_entity dt em e = em" by (simp add: physics_entity_skip)
  with foldl_physics_in [OF assms(1) True, of dt em] show ?thesis
    by (simp add: physicsSystem_def)
next
  case False
  from foldl_physics_notin [OF this] show ?thesis by (simp add: physicsSystem_def)
qed

lemma step_100: "fmul (Fin 100) TARGET_DT = Fin (6990507 / 4194304)"
  by (simp add: TARGET_DT_value fl32_eval)

lemma step_0: "fmul (Fin 0) TARGET_DT = Fin 0"
  by (simp add: TARGET_DT_value fl32_0)

lemma damp_100: "fmul (Fin 100) damping = Fin 98"
  by (simp add: damping_value fl32_eval)

lemma damp_0: "fmul (Fin 0) damping = Fin 0"
  by (simp add: damping_value fl32_0)

lemma move_100:
  assumes "\<bar>x\<bar> \<le> 1000"
  shows "\<exists>x'. fadd (Fin x) (Fin (6990507 / 4194304)) = Fin x' \<and>
           \<bar>x' - (x + 100 / 60)\<bar> \<le> 1 / 10000"
proof -
  define y where "y = x + 6990507 / 4194304"
  define x' where "x' = round_to 24 (- 126) y"
  have y: "\<bar>y\<bar> < 2 powi 10" using assms by (simp add: y_def)
  have err: "\<bar>x' - y\<bar> \<le> 1 / 32768"
  proof (cases "y = 0")
    case True
    then show ?thesis by (simp add: x'_def round_to_0)
  next
    case False
    from quantum_le [OF False y, of "- 126" 24]
    have "quantum 24 (- 126) y \<le> 1 / 16384" by (simp add: power_int_minus_divide)
    with round_to_error [of 24 "- 126" y] show ?thesis
      unfolding x'_def by linarith
  qed
  from y have "\<bar>y\<bar> < 1024" by simp
  with err have "\<bar>x'\<bar> < 1025" by linarith
  then have "\<bar>x'\<bar> < 2 ^ 128" by simp
  then have "fl32 y = Fin x'" unfolding x'_def by (rule fl32_finite)
  then have "fadd (Fin x) (Fin (6990507 / 4194304)) = Fin x'" by (simp add: y_def)
  moreover from err have "\<bar>x' - (x + 100 / 60)\<bar> \<le> 1 / 10000" unfolding y_def by linarith
  ultimately show ?thesis by blast
qed

text \<open>
  Claim C1, as the code has it. For every invocation of the physics system with step
  \<open>dt\<close> on a registry whose live list names no entity twice (as in every reachable
  registry): an entity of the
  live list with a \<^verbatim>\<open>Rigidbody\<close> and a \<^verbatim>\<open>Transform\<close> gets the position
  \<open>pos + vel * dt\<close>, component by component in \<^verbatim>\<open>float\<close> arithmetic, and then the
  velocity \<open>vel * 0.98f\<close>; rotation, scale and mass stay. The components of every other
  identifier (not in the live list, or lacking a \<^verbatim>\<open>Rigidbody\<close> or a \<^verbatim>\<open>Transform\<close>) are
  untouched, as are the sprites, the live list and \<^verbatim>\<open>nextId\<close>; the function is total.
  In particular, with velocity (100, 0) and \<open>dt = TARGET_DT\<close> the new \<^verbatim>\<open>vel.x\<close> is exactly
  98, and \<^verbatim>\<open>pos.x\<close> becomes \<open>pos.x + 100 * TARGET_DT\<close> in \<^verbatim>\<open>float\<close> arithmetic, which
  for a position within 1000 of the origin differs from \<open>pos.x + 100/60\<close> by at most
  \<open>1/10000\<close>.
\<close>

theorem physicsSystem_integrates:
  assumes "distinct (entities em)"
  shows "(\<forall>e rb t. e \<in> set (entities em) \<and> bodies em e = Some rb \<and> transforms em e = Some t \<longrightarrow>
            transforms (physicsSystem em dt) e =
              Some (t\<lparr>pos := (pos t)\<lparr>vec_x := fadd (vec_x (pos t)) (fmul (vec_x (vel rb)) dt),
                                   vec_y := fadd (vec_y (pos t)) (fmul (vec_y (vel rb)) dt)\<rparr>\<rparr>) \<and>
            bodies (physicsSystem em dt) e =
              Some (rb\<lparr>vel := (vel rb)\<lparr>vec_x := fmul (vec_x (vel rb)) damping,
                                      vec_y := fmul (vec_y (vel rb)) damping\<rparr>\<rparr>)) \<and>
         (\<forall>e. e \<notin> set (entities em) \<or> bodies em e = None \<or> transforms em e = None \<longrightarrow>
            transforms (physicsSystem em dt) e = transforms em e \<and>
            bodies (physicsSystem em dt) e = bodies em e) \<and>
         sprites (physicsSystem em dt) = sprites em \<and>
         entities (physicsSystem em dt) = entities em \<and>
         nextId (physicsSystem em dt) = nextId em \<and>
         damping = fl32 (98 / 100) \<and>
         (\<forall>e rb t. e \<in> set (entities em) \<and> bodies em e = Some rb \<and> transforms em e = Some t \<and>
              vel rb = \<lparr>vec_x = Fin 100, vec_y = Fin 0\<rparr> \<and> dt = TARGET_DT \<longrightarrow>
            (\<exists>rb1 t1. bodies (physicsSystem em dt) e = Some rb1 \<and>
                transforms (physicsSystem em dt) e = Some t1 \<and>
                vec_x (vel rb1) = Fin 98 \<and>
                vec_x (pos t1) = fadd (vec_x (pos t)) (Fin (6990507 / 4194304)) \<and>
                (\<forall>x. vec_x (pos t) = Fin x \<and> \<bar>x\<bar> \<le> 1000 \<longrightarrow>
                   (\<exists>x1. vec_x (pos t1) = Fin x1 \<and> \<bar>x1 - (x + 100 / 60)\<bar> \<le> 1 / 10000))))"
proof -
  have s: "\<exists>rb1 t1. bodies (physicsSystem em dt) e = Some rb1 \<and>
                transforms (physicsSystem em dt) e = Some t1 \<and>
                vec_x (vel rb1) = Fin 98 \<and>
                vec_x (pos t1) = fadd (vec_x (pos t)) (Fin (6990507 / 4194304)) \<and>
                (\<forall>x. vec_x (pos t) = Fin x \<and> \<bar>x\<bar> \<le> 1000 \<longrightarrow>
                   (\<exists>x1. vec_x (pos t1) = Fin x1 \<and> \<bar>x1 - (x + 100 / 60)\<bar> \<le> 1 / 10000))"
    if "e \<in> set (entities em)" "bodies em e = Some rb" "transforms em e = Some t"
      "vel rb = \<lparr>vec_x = Fin 100, vec_y = Fin 0\<rparr>" "dt = TARGET_DT" for e rb t
    using physicsSystem_at [OF assms that(1,2,3), of dt] move_100
    by (simp add: that(4,5) step_100 damp_100)
  have a: "\<forall>e rb t. e \<in> set (entities em) \<and> bodies em e = Some rb \<and> transforms em e = Some t \<longrightarrow>
            transforms (physicsSystem em dt) e =
              Some (t\<lparr>pos := (pos t)\<lparr>vec_x := fadd (vec_x (pos t)) (fmul (vec_x (vel rb)) dt),
                                   vec_y := fadd (vec_y (pos t)) (fmul (vec_y (vel rb)) dt)\<rparr>\<rparr>) \<and>
            bodies (physicsSystem em dt) e =
              Some (rb\<lparr>vel := (vel rb)\<lparr>vec_x := fmul (vec_x (vel rb)) damping,
                                      vec_y := fmul (vec_y (vel rb)) damping\<rparr>\<rparr>)"
    using physicsSystem_at [OF assms] by blast
  have b: "\<forall>e. e \<notin> set (entities em) \<or> bodies em e = None \<or> transforms em e = None \<longrightarrow>
            transforms (physicsSystem em dt) e = transforms em e \<and>
            bodies (physicsSystem em dt) e = bodies em e"
    using physicsSystem_skip [OF assms] by blast
  have c: "\<forall>e rb t. e \<in> set (entities em) \<and> bodies em e = Some rb \<and> transforms em e = Some t \<and>
              vel rb = \<lparr>vec_x = Fin 100, vec_y = Fin 0\<rparr> \<and> dt = TARGET_DT \<longrightarrow>
            (\<exists>rb1 t1. bodies (physicsSystem em dt) e = Some rb1 \<and>
                transforms (physicsSystem em dt) e = Some t1 \<and>
                vec_x (vel rb1) = Fin 98 \<and>
                vec_x (pos t1) = fadd (vec_x (pos t)) (Fin (6990507 / 4194304)) \<and>
                (\<forall>x. vec_x (pos t) = Fin x \<and> \<bar>x\<bar> \<le> 1000 \<longrightarrow>
                   (\<exists>x1. vec_x (pos t1) = Fin x1 \<and> \<bar>x1 - (x + 100 / 60)\<bar> \<le> 1 / 10000)))"
    using s by blast
  show ?thesis
    by (intro conjI a b c physicsSystem_frame) (simp add: damping_def)
qed

theorem physicsSystem_integrates_witness:
  "distinct (entities (one_body (Fin 100) (Fin 0))) \<and>
   1 \<in> set (entities (one_body (Fin 100) (Fin 0))) \<and>
   bodies (one_body (Fin 100) (Fin 0)) 1 =
     Some \<lparr>vel = \<lparr>vec_x = Fin 100, vec_y = Fin 0\<rparr>, mass = Fin 1\<rparr> \<and>
   transforms (one_body (Fin 100) (Fin 0)) 1 = Some default_Transform \<and>
   bodies (physicsSystem (one_body (Fin 100) (Fin 0)) TARGET_DT) 1 =
     Some \<lparr>vel = \<lparr>vec_x = Fin 98, vec_y = Fin 0\<rparr>, mass = Fin 1\<rparr> \<and>
   transforms (physicsSystem (one_body (Fin 100) (Fin 0)) TARGET_DT) 1 =
     Some (default_Transform\<lparr>pos := \<lparr>vec_x = Fin (6990507 / 4194304), vec_y = Fin 0\<rparr>\<rparr>) \<and>
   2 \<notin> set (entities (one_body (Fin 100) (Fin 0))) \<and>
   bodies (physicsSystem (one_body (Fin 100) (Fin 0)) TARGET_DT) 2 = None"
proof -
  have d: "distinct (entities (one_body (Fin 100) (Fin 0)))" by (simp add: one_body_def)
  have v: "fl32 (6990507 / 4194304) = Fin (6990507 / 4194304)" by (simp add: fl32_eval)
  from physicsSystem_integrates [OF d, of TARGET_DT] show ?thesis
    by (simp add: one_body_def default_Transform_def step_100 step_0 damp_100 damp_0 v fl32_0)
qed

lemma body_at_reachable: "reachable (body_at x vx)"
proof -
  have "1 \<in> set (entities (one_body vx (Fin 0)))" by (simp add: one_body_def)
  with one_body_reachable [of vx "Fin 0"]
  have "reachable ((one_body vx (Fin 0))\<lparr>transforms := (transforms (one_body vx (Fin 0)))
      (1 \<mapsto> default_Transform\<lparr>pos := \<lparr>vec_x = x, vec_y = Fin 0\<rparr>\<rparr>)\<rparr>)"
    by (rule r_transform)
  then show ?thesis by (simp add: one_body_def body_at_def)
qed

lemma absorb_25: "fadd (Fin 33554432) (Fin (6990507 / 4194304)) = Fin 33554432"
  by (simp add: fl32_eval)

lemma absorb_20: "fadd (Fin 1048576) (Fin (6990507 / 4194304)) = Fin (8388621 / 8)"
  by (simp add: fl32_eval)

text \<open>The claim C1 as it is stated fails far from the origin, where the spacing of the
  \<^verbatim>\<open>float\<close> numbers exceeds the step. An entity with velocity (100, 0) that stands at
  \<open>x = 2 ^ 25\<close> (a registry the program can reach) stays at \<open>x = 2 ^ 25\<close> after one
  tick at \<open>TARGET_DT\<close>: the sum rounds back to the old position, which does not increase
  by \<open>100/60\<close>. At \<open>x = 2 ^ 20\<close> the tick adds \<open>13/8 = 1.625\<close>.\<close>

theorem physicsSystem_absorbs:
  "reachable (body_at (Fin 33554432) (Fin 100)) \<and>
   vel (the (bodies (body_at (Fin 33554432) (Fin 100)) 1)) = \<lparr>vec_x = Fin 100, vec_y = Fin 0\<rparr> \<and>
   vec_x (pos (the (transforms (body_at (Fin 33554432) (Fin 100)) 1))) = Fin 33554432 \<and>
   vec_x (pos (the (transforms (physicsSystem (body_at (Fin 33554432) (Fin 100)) TARGET_DT) 1))) =
     Fin 33554432 \<and>
   vec_x (pos (the (transforms (body_at (Fin 1048576) (Fin 100)) 1))) = Fin 1048576 \<and>
   vec_x (pos (the (transforms (physicsSystem (body_at (Fin 1048576) (Fin 100)) TARGET_DT) 1))) =
     Fin (1048576 + 13 / 8)"
proof -
  have h: "distinct (entities (body_at x (Fin 100)))" "1 \<in> set (entities (body_at x (Fin 100)))"
    "bodies (body_at x (Fin 100)) 1 = Some \<lparr>vel = \<lparr>vec_x = Fin 100, vec_y = Fin 0\<rparr>, mass = Fin 1\<rparr>"
    "transforms (body_at x (Fin 100)) 1 =
       Some (default_Transform\<lparr>pos := \<lparr>vec_x = x, vec_y = Fin 0\<rparr>\<rparr>)" for x
    by (simp_all add: body_at_def)
  from physicsSystem_at [OF h, of "Fin 33554432" TARGET_DT]
    physicsSystem_at [OF h, of "Fin 1048576" TARGET_DT] h body_at_reachable absorb_25 absorb_20
  show ?thesis
    by (simp add: step_100)
qed

section \<open>Damping\<close>

lemma damp_pos:
  assumes "0 \<le> v" "round_to 24 (- 126) v = v"
  shows "0 \<le> round_to 24 (- 126) (v * (2055209 / 2097152)) \<and>
         round_to 24 (- 126) (v * (2055209 / 2097152)) \<le> v \<and>
         (26 * 2 powi (- 149) \<le> v \<longrightarrow> round_to 24 (- 126) (v * (2055209 / 2097152)) < v)"
proof -
  define x where "x = v * (2055209 / 2097152)"
  define w where "w = round_to 24 (- 126) x"
  have x0: "0 \<le> x" using assms(1) by (simp add: x_def)
  have w0: "0 \<le> w" unfolding w_def using x0 by (rule round_to_nonneg)
  have "x \<le> v" using assms(1) by (simp add: x_def)
  then have "round_to 24 (- 126) x \<le> round_to 24 (- 126) v" by (rule round_to_mono) simp
  then have wv: "w \<le> v" by (simp add: w_def assms(2))
  have strict: "w < v" if big: "26 * 2 powi (- 149) \<le> v"
  proof -
    define u :: real where "u = 2 powi (- 149)"
    have u: "0 < u" by (simp add: u_def)
    from big u have vpos: "0 < v" unfolding u_def [symmetric] by linarith
    then have xpos: "0 < x" by (simp add: x_def)
    then have xn: "x \<noteq> 0" by simp
    have err: "w \<le> x + quantum 24 (- 126) x / 2"
      using round_to_error [of 24 "- 126" x] unfolding w_def by linarith
    show ?thesis
    proof (cases "- 126 \<le> expo x")
      case True
      from quantum_rel [OF xn True, of 24] xpos
      have "quantum 24 (- 126) x \<le> x / 8388608" by (simp add: power_int_minus_divide)
      with err have "w \<le> x + x / 16777216" by linarith
      with vpos show ?thesis unfolding x_def by linarith
    next
      case False
      then have "expo x \<le> - 126" by simp
      from quantum_sub [OF this, of 24] have "quantum 24 (- 126) x = u" by (simp add: u_def)
      with err have "w \<le> x + u / 2" by simp
      with big u show ?thesis unfolding x_def u_def [symmetric] by linarith
    qed
  qed
  from w0 wv strict show ?thesis unfolding w_def x_def by blast
qed

lemma damp_component:
  assumes "is_float (Fin v)"
  shows "\<exists>w. fmul (Fin v) damping = Fin w \<and> is_float (Fin w) \<and> \<bar>w\<bar> \<le> \<bar>v\<bar> \<and>
           (0 \<le> v \<longrightarrow> 0 \<le> w) \<and> (v \<le> 0 \<longrightarrow> w \<le> 0) \<and>
           (26 * 2 powi (- 149) \<le> \<bar>v\<bar> \<longrightarrow> \<bar>w\<bar> < \<bar>v\<bar>)"
proof -
  define w where "w = round_to 24 (- 126) (v * (2055209 / 2097152))"
  from assms have rv: "round_to 24 (- 126) v = v" and fin: "\<bar>v\<bar> < 2 ^ 128"
    by (simp_all add: is_float_Fin)
  have props: "\<bar>w\<bar> \<le> \<bar>v\<bar> \<and> (0 \<le> v \<longrightarrow> 0 \<le> w) \<and> (v \<le> 0 \<longrightarrow> w \<le> 0) \<and>
           (26 * 2 powi (- 149) \<le> \<bar>v\<bar> \<longrightarrow> \<bar>w\<bar> < \<bar>v\<bar>)"
  proof (cases "0 \<le> v")
    case True
    from damp_pos [OF True rv] True show ?thesis unfolding w_def by auto
  next
    case False
    then have n: "0 \<le> - v" by simp
    have rn: "round_to 24 (- 126) (- v) = - v" by (simp add: round_to_minus rv)
    have "round_to 24 (- 126) (- v * (2055209 / 2097152)) = - w"
      using round_to_minus [of 24 "- 126" "v * (2055209 / 2097152)"] by (simp add: w_def)
    with damp_pos [OF n rn] False show ?thesis by auto
  qed
  then have "\<bar>w\<bar> < 2 ^ 128" using fin by linarith
  then have f: "fl32 (v * (2055209 / 2097152)) = Fin w" unfolding w_def by (rule fl32_finite)
  then have m: "fmul (Fin v) damping = Fin w" by (simp add: damping_value)
  from is_float_fl32 [of "v * (2055209 / 2097152)"] f have "is_float (Fin w)" by simp
  with m props show ?thesis by blast
qed

lemma speed_le:
  assumes "\<bar>wx\<bar> \<le> \<bar>vx\<bar>" "\<bar>wy\<bar> \<le> \<bar>vy\<bar>"
  shows "sqrt (wx\<^sup>2 + wy\<^sup>2) \<le> sqrt (vx\<^sup>2 + vy\<^sup>2)"
proof -
  from assms have "wx\<^sup>2 \<le> vx\<^sup>2" "wy\<^sup>2 \<le> vy\<^sup>2" by (simp_all add: abs_le_square_iff)
  then show ?thesis by simp
qed

lemma speed_less:
  assumes "\<bar>wx\<bar> \<le> \<bar>vx\<bar>" "\<bar>wy\<bar> \<le> \<bar>vy\<bar>" "\<bar>wx\<bar> < \<bar>vx\<bar> \<or> \<bar>wy\<bar> < \<bar>vy\<bar>"
  shows "sqrt (wx\<^sup>2 + wy\<^sup>2) < sqrt (vx\<^sup>2 + vy\<^sup>2)"
proof -
  from assms(1,2) have le: "wx\<^sup>2 \<le> vx\<^sup>2" "wy\<^sup>2 \<le> vy\<^sup>2" by (simp_all add: abs_le_square_iff)
  have sq: "a\<^sup>2 < b\<^sup>2" if "\<bar>a\<bar> < \<bar>b\<bar>" for a b :: real
    using power_strict_mono [OF that, of 2] by simp
  from assms(3) sq have "wx\<^sup>2 < vx\<^sup>2 \<or> wy\<^sup>2 < vy\<^sup>2" by blast
  with le have "wx\<^sup>2 + wy\<^sup>2 < vx\<^sup>2 + vy\<^sup>2" by linarith
  then show ?thesis by simp
qed

lemma physics_tick_damps:
  assumes "distinct (entities em)" "e \<in> set (entities em)"
    and "bodies em e = Some rb" "transforms em e = Some t"
    and "vel rb = \<lparr>vec_x = Fin vx, vec_y = Fin vy\<rparr>"
    and "is_float (Fin vx)" "is_float (Fin vy)"
  shows "\<exists>rb1 t1 wx wy.
           bodies (physicsSystem em dt) e = Some rb1 \<and>
           transforms (physicsSystem em dt) e = Some t1 \<and>
           distinct (entities (physicsSystem em dt)) \<and> e \<in> set (entities (physicsSystem em dt)) \<and>
           vel rb1 = \<lparr>vec_x = Fin wx, vec_y = Fin wy\<rparr> \<and>
           is_float (Fin wx) \<and> is_float (Fin wy) \<and>
           \<bar>wx\<bar> \<le> \<bar>vx\<bar> \<and> \<bar>wy\<bar> \<le> \<bar>vy\<bar> \<and>
           (0 \<le> vx \<longrightarrow> 0 \<le> wx) \<and> (vx \<le> 0 \<longrightarrow> wx \<le> 0) \<and>
           (0 \<le> vy \<longrightarrow> 0 \<le> wy) \<and> (vy \<le> 0 \<longrightarrow> wy \<le> 0) \<and>
           (26 * 2 powi (- 149) \<le> \<bar>vx\<bar> \<longrightarrow> \<bar>wx\<bar> < \<bar>vx\<bar>) \<and>
           (26 * 2 powi (- 149) \<le> \<bar>vy\<bar> \<longrightarrow> \<bar>wy\<bar> < \<bar>vy\<bar>) \<and>
           speed_of (vel rb1) \<le> speed_of (vel rb) \<and>
           (26 * 2 powi (- 149) \<le> \<bar>vx\<bar> \<or> 26 * 2 powi (- 149) \<le> \<bar>vy\<bar> \<longrightarrow>
              speed_of (vel rb1) < speed_of (vel rb))"
proof -
  from damp_component [OF assms(6)] obtain wx where wx:
    "fmul (Fin vx) damping = Fin wx" "is_float (Fin wx)" "\<bar>wx\<bar> \<le> \<bar>vx\<bar>"
    "0 \<le> vx \<longrightarrow> 0 \<le> wx" "vx \<le> 0 \<longrightarrow> wx \<le> 0"
    "26 * 2 powi (- 149) \<le> \<bar>vx\<bar> \<longrightarrow> \<bar>wx\<bar> < \<bar>vx\<bar>"
    by blast
  from damp_component [OF assms(7)] obtain wy where wy:
    "fmul (Fin vy) damping = Fin wy" "is_float (Fin wy)" "\<bar>wy\<bar> \<le> \<bar>vy\<bar>"
    "0 \<le> vy \<longrightarrow> 0 \<le> wy" "vy \<le> 0 \<longrightarrow> wy \<le> 0"
    "26 * 2 powi (- 149) \<le> \<bar>vy\<bar> \<longrightarrow> \<bar>wy\<bar> < \<bar>vy\<bar>"
    by blast
  define rb1 where "rb1 = rb\<lparr>vel := \<lparr>vec_x = Fin wx, vec_y = Fin wy\<rparr>\<rparr>"
  from physicsSystem_at [OF assms(1-4), of dt]
  obtain t1 where t1: "transforms (physicsSystem em dt) e = Some t1"
    and b1: "bodies (physicsSystem em dt) e = Some rb1"
    by (simp add: rb1_def assms(5) wx(1) wy(1))
  have v1: "vel rb1 = \<lparr>vec_x = Fin wx, vec_y = Fin wy\<rparr>" by (simp add: rb1_def)
  have le: "speed_of (vel rb1) \<le> speed_of (vel rb)"
    unfolding speed_of_def v1 assms(5) using speed_le [OF wx(3) wy(3)] by simp
  have less: "speed_of (vel rb1) < speed_of (vel rb)"
    if "26 * 2 powi (- 149) \<le> \<bar>vx\<bar> \<or> 26 * 2 powi (- 149) \<le> \<bar>vy\<bar>"
  proof -
    from that wx(6) wy(6) have "\<bar>wx\<bar> < \<bar>vx\<bar> \<or> \<bar>wy\<bar> < \<bar>vy\<bar>" by blast
    from speed_less [OF wx(3) wy(3) this] show ?thesis
      unfolding speed_of_def v1 assms(5) by simp
  qed
  have d: "distinct (entities (physicsSystem em dt))" "e \<in> set (entities (physicsSystem em dt))"
    using assms(1,2) by (simp_all add: physicsSystem_frame)
  from b1 t1 d v1 wx(2-6) wy(2-6) le less show ?thesis by blast
qed

lemma physics_ticks_inv:
  assumes "distinct (entities em)" "e \<in> set (entities em)"
    and "bodies em e = Some rb" "transforms em e = Some t"
    and "vel rb = \<lparr>vec_x = Fin vx, vec_y = Fin vy\<rparr>"
    and "is_float (Fin vx)" "is_float (Fin vy)"
  shows "\<exists>rb1 t1 wx wy.
           bodies (((\<lambda>m. physicsSystem m dt) ^^ n) em) e = Some rb1 \<and>
           transforms (((\<lambda>m. physicsSystem m dt) ^^ n) em) e = Some t1 \<and>
           distinct (entities (((\<lambda>m. physicsSystem m dt) ^^ n) em)) \<and>
           e \<in> set (entities (((\<lambda>m. physicsSystem m dt) ^^ n) em)) \<and>
           vel rb1 = \<lparr>vec_x = Fin wx, vec_y = Fin wy\<rparr> \<and>
           is_float (Fin wx) \<and> is_float (Fin wy)"
proof (induction n)
  case 0
  from assms show ?case by auto
next
  case (Suc n)
  then obtain rb1 t1 wx wy where h:
    "distinct (entities (((\<lambda>m. physicsSystem m dt) ^^ n) em))"
    "e \<in> set (entities (((\<lambda>m. physicsSystem m dt) ^^ n) em))"
    "bodies (((\<lambda>m. physicsSystem m dt) ^^ n) em) e = Some rb1"
    "transforms (((\<lambda>m. physicsSystem m dt) ^^ n) em) e = Some t1"
    "vel rb1 = \<lparr>vec_x = Fin wx, vec_y = Fin wy\<rparr>"
    "is_float (Fin wx)" "is_float (Fin wy)"
    by blast
  from physics_tick_damps [OF h, where dt = dt] obtain rb2 t2 ux uy where
    "bodies (physicsSystem (((\<lambda>m. physicsSystem m dt) ^^ n) em) dt) e = Some rb2"
    "transforms (physicsSystem (((\<lambda>m. physicsSystem m dt) ^^ n) em) dt) e = Some t2"
    "distinct (entities (physicsSystem (((\<lambda>m. physicsSystem m dt) ^^ n) em) dt))"
    "e \<in> set (entities (physicsSystem (((\<lambda>m. physicsSystem m dt) ^^ n) em) dt))"
    "vel rb2 = \<lparr>vec_x = Fin ux, vec_y = Fin uy\<rparr>"
    "is_float (Fin ux)" "is_float (Fin uy)"
    by blast
  then show ?case
    by (simp only: funpow.simps o_apply) blast
qed

lemma control_zero_input:
  assumes "axisX inp = Fin 0" "axisY inp = Fin 0" "is_finite s"
    and "\<forall>rb. bodies em p = Some rb \<longrightarrow>
           is_float (vec_x (vel rb)) \<and> is_float (vec_y (vel rb))"
  shows "playerControlSystem p em inp s = em"
proof (cases "bodies em p")
  case None
  then show ?thesis by (simp add: playerControlSystem_def)
next
  case (Some rb)
  with assms(4) have "is_float (vec_x (vel rb))" "is_float (vec_y (vel rb))" by simp_all
  then have "(bodies em)(p \<mapsto> rb\<lparr>vel := (vel rb)
      \<lparr>vec_x := fadd (vec_x (vel rb)) (fmul (axisX inp) s),
       vec_y := fadd (vec_y (vel rb)) (fmul (axisY inp) s)\<rparr>\<rparr>) = bodies em"
    using Some by (simp add: assms(1-3) fmul_zero fadd_zero fun_upd_idem)
  then show ?thesis using Some by (simp add: playerControlSystem_def Let_def)
qed

text \<open>
  Claim C10, as the code has it. Take an entity of the live list (which names no entity
  twice) with a \<^verbatim>\<open>Transform\<close> and a \<^verbatim>\<open>Rigidbody\<close> whose velocity components are finite
  \<^verbatim>\<open>float\<close> numbers, and run the physics system any number of times (with zero control
  input the control system in between changes nothing, see \<open>control_zero_input\<close>). Then
  every tick leaves both velocity components finite, does not increase the magnitude of
  either component, does not reverse the sign of either component, and does not increase
  the speed; it strictly decreases the magnitude of a component whose magnitude is at least
  \<open>26 * 2 powi (- 149)\<close> (about 3.6e-44), and strictly decreases the speed when one of
  the two components is that large.
\<close>

theorem physicsSystem_damps:
  assumes "distinct (entities em)" "e \<in> set (entities em)"
    and "bodies em e = Some rb" "transforms em e = Some t"
    and "vel rb = \<lparr>vec_x = Fin vx0, vec_y = Fin vy0\<rparr>"
    and "is_float (Fin vx0)" "is_float (Fin vy0)"
  shows "\<exists>rb1 rb2 vx vy wx wy.
           bodies (((\<lambda>m. physicsSystem m dt) ^^ n) em) e = Some rb1 \<and>
           bodies (((\<lambda>m. physicsSystem m dt) ^^ Suc n) em) e = Some rb2 \<and>
           vel rb1 = \<lparr>vec_x = Fin vx, vec_y = Fin vy\<rparr> \<and>
           vel rb2 = \<lparr>vec_x = Fin wx, vec_y = Fin wy\<rparr> \<and>
           \<bar>wx\<bar> \<le> \<bar>vx\<bar> \<and> \<bar>wy\<bar> \<le> \<bar>vy\<bar> \<and>
           (0 \<le> vx \<longrightarrow> 0 \<le> wx) \<and> (vx \<le> 0 \<longrightarrow> wx \<le> 0) \<and>
           (0 \<le> vy \<longrightarrow> 0 \<le> wy) \<and> (vy \<le> 0 \<longrightarrow> wy \<le> 0) \<and>
           (26 * 2 powi (- 149) \<le> \<bar>vx\<bar> \<longrightarrow> \<bar>wx\<bar> < \<bar>vx\<bar>) \<and>
           (26 * 2 powi (- 149) \<le> \<bar>vy\<bar> \<longrightarrow> \<bar>wy\<bar> < \<bar>vy\<bar>) \<and>
           speed_of (vel rb2) \<le> speed_of (vel rb1) \<and>
           (26 * 2 powi (- 149) \<le> \<bar>vx\<bar> \<or> 26 * 2 powi (- 149) \<le> \<bar>vy\<bar> \<longrightarrow>
              speed_of (vel rb2) < speed_of (vel rb1))"
proof -
  from physics_ticks_inv [OF assms, where dt = dt and n = n] obtain rb1 t1 vx vy where h:
    "distinct (entities (((\<lambda>m. physicsSystem m dt) ^^ n) em))"
    "e \<in> set (entities (((\<lambda>m. physicsSystem m dt) ^^ n) em))"
    "bodies (((\<lambda>m. physicsSystem m dt) ^^ n) em) e = Some rb1"
    "transforms (((\<lambda>m. physicsSystem m dt) ^^ n) em) e = Some t1"
    "vel rb1 = \<lparr>vec_x = Fin vx, vec_y = Fin vy\<rparr>"
    "is_float (Fin vx)" "is_float (Fin vy)"
    by blast
  from physics_tick_damps [OF h, where dt = dt] obtain rb2 wx wy where k:
    "bodies (physicsSystem (((\<lambda>m. physicsSystem m dt) ^^ n) em) dt) e = Some rb2"
    "vel rb2 = \<lparr>vec_x = Fin wx, vec_y = Fin wy\<rparr>"
    "\<bar>wx\<bar> \<le> \<bar>vx\<bar>" "\<bar>wy\<bar> \<le> \<bar>vy\<bar>"
    "0 \<le> vx \<longrightarrow> 0 \<le> wx" "vx \<le> 0 \<longrightarrow> wx \<le> 0"
    "0 \<le> vy \<longrightarrow> 0 \<le> wy" "vy \<le> 0 \<longrightarrow> wy \<le> 0"
    "26 * 2 powi (- 149) \<le> \<bar>vx\<bar> \<longrightarrow> \<bar>wx\<bar> < \<bar>vx\<bar>"
    "26 * 2 powi (- 149) \<le> \<bar>vy\<bar> \<longrightarrow> \<bar>wy\<bar> < \<bar>vy\<bar>"
    "speed_of (vel rb2) \<le> speed_of (vel rb1)"
    "26 * 2 powi (- 149) \<le> \<bar>vx\<bar> \<or> 26 * 2 powi (- 149) \<le> \<bar>vy\<bar> \<longrightarrow>
       speed_of (vel rb2) < speed_of (vel rb1)"
    by blast
  have s: "((\<lambda>m. physicsSystem m dt) ^^ Suc n) em =
      physicsSystem (((\<lambda>m. physicsSystem m dt) ^^ n) em) dt"
    by simp
  show ?thesis
    unfolding s
    apply (rule exI [of _ rb1], rule exI [of _ rb2], rule exI [of _ vx], rule exI [of _ vy])
    apply (rule exI [of _ wx], rule exI [of _ wy])
    using h(3,5) k by blast
qed

lemma fl32_100: "fl32 100 = Fin 100"
  by (simp add: fl32_eval)

theorem physicsSystem_damps_witness:
  "distinct (entities (one_body (Fin 100) (Fin 0))) \<and>
   1 \<in> set (entities (one_body (Fin 100) (Fin 0))) \<and>
   bodies (one_body (Fin 100) (Fin 0)) 1 =
     Some \<lparr>vel = \<lparr>vec_x = Fin 100, vec_y = Fin 0\<rparr>, mass = Fin 1\<rparr> \<and>
   transforms (one_body (Fin 100) (Fin 0)) 1 = Some default_Transform \<and>
   is_float (Fin 100) \<and> is_float (Fin 0) \<and>
   26 * 2 powi (- 149) \<le> \<bar>100 :: real\<bar> \<and>
   (\<exists>rb2. bodies (physicsSystem (one_body (Fin 100) (Fin 0)) TARGET_DT) 1 = Some rb2 \<and>
      speed_of (vel rb2) < speed_of \<lparr>vec_x = Fin 100, vec_y = Fin 0\<rparr>)"
proof -
  have h: "distinct (entities (one_body (Fin 100) (Fin 0)))"
    "1 \<in> set (entities (one_body (Fin 100) (Fin 0)))"
    "bodies (one_body (Fin 100) (Fin 0)) 1 =
       Some \<lparr>vel = \<lparr>vec_x = Fin 100, vec_y = Fin 0\<rparr>, mass = Fin 1\<rparr>"
    "transforms (one_body (Fin 100) (Fin 0)) 1 = Some default_Transform"
    "vel \<lparr>vel = \<lparr>vec_x = Fin 100, vec_y = Fin 0\<rparr>, mass = Fin 1\<rparr> =
       \<lparr>vec_x = Fin 100, vec_y = Fin 0\<rparr>"
    "is_float (Fin 100)" "is_float (Fin 0)"
    by (simp_all add: one_body_def is_float_def fl32_100 fl32_0)
  have big: "26 * 2 powi (- 149) \<le> \<bar>100 :: real\<bar>"
    by (simp add: power_int_minus_divide)
  from physicsSystem_damps [OF h, where dt = TARGET_DT and n = 0] h big show ?thesis
    by (simp add: power_int_minus_divide) blast
qed

lemma stall: "fmul (Fin (2 powi (- 149))) damping = Fin (2 powi (- 149))"
  by (simp add: damping_value fl32_eval power_int_minus)

text \<open>The claim C10 as it is stated fails for the smallest velocities: the product of the
  least positive \<^verbatim>\<open>float\<close> \<open>2 powi (- 149)\<close> and \<^verbatim>\<open>0.98f\<close> rounds back to
  \<open>2 powi (- 149)\<close>, so a tick leaves this nonzero velocity, and with it the speed, as
  it is: the speed neither decreases strictly nor tends to zero.\<close>

theorem physicsSystem_stalls:
  "vel (the (bodies (one_body (Fin (2 powi (- 149))) (Fin 0)) 1)) =
     \<lparr>vec_x = Fin (2 powi (- 149)), vec_y = Fin 0\<rparr> \<and>
   vel (the (bodies (physicsSystem (one_body (Fin (2 powi (- 149))) (Fin 0)) TARGET_DT) 1)) =
     \<lparr>vec_x = Fin (2 powi (- 149)), vec_y = Fin 0\<rparr> \<and>
   speed_of \<lparr>vec_x = Fin (2 powi (- 149)), vec_y = Fin 0\<rparr> = 2 powi (- 149) \<and>
   (0::real) < 2 powi (- 149)"
proof -
  have d: "distinct (entities (one_body (Fin (2 powi (- 149))) (Fin 0)))"
    "1 \<in> set (entities (one_body (Fin (2 powi (- 149))) (Fin 0)))"
    by (simp_all add: one_body_def)
  have b: "bodies (one_body (Fin (2 powi (- 149))) (Fin 0)) 1 =
      Some \<lparr>vel = \<lparr>vec_x = Fin (2 powi (- 149)), vec_y = Fin 0\<rparr>, mass = Fin 1\<rparr>"
    and t: "transforms (one_body (Fin (2 powi (- 149))) (Fin 0)) 1 = Some default_Transform"
    by (simp_all add: one_body_def)
  from physicsSystem_at [OF d b t, of TARGET_DT] b stall show ?thesis
    by (simp add: damp_0 speed_of_def)
qed

section \<open>The render system\<close>

lemma drawable_iff:
  "drawable em e \<longleftrightarrow> (\<exists>sp tr. sprites em e = Some sp \<and> transforms em e = Some tr \<and> tex sp \<noteq> 0)"
  by (auto simp: drawable_def split: option.splits)

lemma render_entities_Inr:
  "render_entities em es = Inr calls \<Longrightarrow>
     list_all2 (\<lambda>e call. \<exists>sp tr r. sprites em e = Some sp \<and> transforms em e = Some tr \<and>
         tex sp \<noteq> 0 \<and> dst_rect sp tr = Inr r \<and>
         call = SDL_RenderCopyEx (tex sp) None r (double_of_float (rot tr)) None SDL_FLIP_NONE)
       (filter (drawable em) es) calls"
proof (induction es arbitrary: calls)
  case Nil
  then show ?case by simp
next
  case (Cons e es)
  show ?case
  proof (cases "drawable em e")
    case False
    then have "render_entities em (e # es) = render_entities em es"
      by (auto simp: drawable_iff Let_def)
    with Cons False show ?thesis by simp
  next
    case True
    then obtain sp tr where s: "sprites em e = Some sp" "transforms em e = Some tr" "tex sp \<noteq> 0"
      by (auto simp: drawable_iff)
    from Cons.prems s obtain r rest where r: "dst_rect sp tr = Inr r"
      "render_entities em es = Inr rest"
      "calls = SDL_RenderCopyEx (tex sp) None r (double_of_float (rot tr)) None SDL_FLIP_NONE # rest"
      by (auto simp: Let_def split: sum.splits)
    from Cons.IH [OF r(2)] True s r(1,3) show ?thesis by simp
  qed
qed

lemma render_entities_defined:
  "(\<forall>e \<in> set es. drawable em e \<longrightarrow>
      (\<exists>r. dst_rect (the (sprites em e)) (the (transforms em e)) = Inr r)) \<Longrightarrow>
   \<exists>calls. render_entities em es = Inr calls"
proof (induction es)
  case Nil
  then show ?case by simp
next
  case (Cons e es)
  then obtain rest where rest: "render_entities em es = Inr rest" by auto
  show ?case
  proof (cases "drawable em e")
    case False
    then have "render_entities em (e # es) = render_entities em es"
      by (auto simp: drawable_iff Let_def)
    with rest show ?thesis by simp
  next
    case True
    with Cons.prems obtain r where
      "dst_rect (the (sprites em e)) (the (transforms em e)) = Inr r" by auto
    with True rest show ?thesis by (auto simp: drawable_iff Let_def)
  qed
qed

lemma int_of_float_Inr:
  "int_of_float a = Inr k \<Longrightarrow> \<exists>x. a = Fin x \<and> k = trunc_toward_zero x"
  by (cases a) (auto simp: Let_def split: if_splits)

lemma trunc_of_int: "trunc_toward_zero (of_int k) = k"
  by (simp add: trunc_toward_zero_def)

lemma int_of_float_roundf:
  "int_of_float (roundf a) = Inr k \<Longrightarrow> \<exists>x. a = Fin x \<and> k = round_half_away x"
  by (cases a) (auto simp: Let_def trunc_of_int split: if_splits)

lemma dst_rect_Inr:
  assumes "dst_rect sp tr = Inr r"
  shows "\<exists>W H X Y.
    fmul (float_of_int (spr_w sp)) (vec_x (scale tr)) = Fin W \<and> rect_w r = trunc_toward_zero W \<and>
    fmul (float_of_int (spr_h sp)) (vec_y (scale tr)) = Fin H \<and> rect_h r = trunc_toward_zero H \<and>
    fsub (vec_x (pos tr)) (float_of_int (rect_w r sdiv 2)) = Fin X \<and> rect_x r = round_half_away X \<and>
    fsub (vec_y (pos tr)) (float_of_int (rect_h r sdiv 2)) = Fin Y \<and> rect_y r = round_half_away Y"
proof -
  from assms obtain w h x y where c:
    "int_of_float (fmul (float_of_int (spr_w sp)) (vec_x (scale tr))) = Inr w"
    "int_of_float (fmul (float_of_int (spr_h sp)) (vec_y (scale tr))) = Inr h"
    "int_of_float (roundf (fsub (vec_x (pos tr)) (float_of_int (w sdiv 2)))) = Inr x"
    "int_of_float (roundf (fsub (vec_y (pos tr)) (float_of_int (h sdiv 2)))) = Inr y"
    "r = \<lparr>rect_x = x, rect_y = y, rect_w = w, rect_h = h\<rparr>"
    by (auto simp: dst_rect_def split: sum.splits)
  from int_of_float_Inr [OF c(1)] int_of_float_Inr [OF c(2)]
    int_of_float_roundf [OF c(3)] int_of_float_roundf [OF c(4)] c(5)
  show ?thesis by auto
qed

lemma fl32_ints:
  "fl32 64 = Fin 64" "fl32 32 = Fin 32" "fl32 368 = Fin 368" "fl32 268 = Fin 268"
  "fl32 400 = Fin 400" "fl32 300 = Fin 300" "fl32 25 = Fin 25" "fl32 75 = Fin 75"
  "fl32 125 = Fin 125"
  by (simp_all add: fl32_eval)

lemma dst_rect_scenario:
  "dst_rect \<lparr>tex = tx, spr_w = 64, spr_h = 64\<rparr>
     \<lparr>pos = \<lparr>vec_x = Fin 400, vec_y = Fin 300\<rparr>, rot = Fin 0,
      scale = \<lparr>vec_x = Fin 1, vec_y = Fin 1\<rparr>\<rparr> =
   Inr \<lparr>rect_x = 368, rect_y = 268, rect_w = 64, rect_h = 64\<rparr>"
  by (simp add: dst_rect_def float_of_int_def fl32_ints fsub_def trunc_toward_zero_def
      round_half_away_def INT_MIN_def INT_MAX_def)

lemma scale_08: "fl32 (8 / 10) = Fin (13421773 / 16777216)"
  by (simp add: fl32_eval)

lemma width_08: "fmul (Fin 64) (Fin (13421773 / 16777216)) = Fin (13421773 / 262144)"
  by (simp add: fl32_eval)

lemma dst_rect_static:
  "dst_rect \<lparr>tex = tx, spr_w = 64, spr_h = 64\<rparr>
     \<lparr>pos = \<lparr>vec_x = Fin 100, vec_y = Fin 150\<rparr>, rot = Fin 0,
      scale = \<lparr>vec_x = fl32 (8 / 10), vec_y = fl32 (8 / 10)\<rparr>\<rparr> =
   Inr \<lparr>rect_x = 75, rect_y = 125, rect_w = 51, rect_h = 51\<rparr>"
  using scale_08 width_08
  by (simp add: dst_rect_def float_of_int_def fl32_ints fsub_def
      trunc_toward_zero_def round_half_away_def INT_MIN_def INT_MAX_def)

lemma pos_1006: "fl32 (1006 / 10) = Fin (13185843 / 131072)"
  by (simp add: fl32_eval)

lemma sub_1006: "fl32 (13185843 / 131072 - 25) = Fin (9909043 / 131072)"
  by (simp add: fl32_eval)

lemma dst_rect_moved:
  "dst_rect \<lparr>tex = tx, spr_w = 64, spr_h = 64\<rparr>
     \<lparr>pos = \<lparr>vec_x = fl32 (1006 / 10), vec_y = Fin 150\<rparr>, rot = Fin 0,
      scale = \<lparr>vec_x = fl32 (8 / 10), vec_y = fl32 (8 / 10)\<rparr>\<rparr> =
   Inr \<lparr>rect_x = 76, rect_y = 125, rect_w = 51, rect_h = 51\<rparr>"
  using scale_08 width_08 pos_1006 sub_1006
  by (simp add: dst_rect_def float_of_int_def fl32_ints fsub_def
      trunc_toward_zero_def round_half_away_def INT_MIN_def INT_MAX_def)

text \<open>
  Claim C3, as the code has it. A render invocation without undefined behaviour (every
  conversion to \<^verbatim>\<open>int\<close> in range; this is the case as soon as every rectangle of a
  drawable entity is defined) issues, between the clear and the present, exactly one draw
  for every occurrence in the live list of an entity that has a \<^verbatim>\<open>Transform\<close> and a
  \<^verbatim>\<open>Sprite\<close> with a non-null texture, no other draw, in the order of the live list (a
  live list without duplicates gives one draw per such entity). The draw has the texture of
  the sprite, no source rectangle, the angle \<^verbatim>\<open>rot\<close>, no centre and no flip. Its
  destination has width and height the \<^verbatim>\<open>float\<close> products intrinsic size times scale,
  truncated toward zero to an \<^verbatim>\<open>int\<close>; its left edge is the \<^verbatim>\<open>float\<close> difference of
  \<^verbatim>\<open>pos.x\<close> and the \<^verbatim>\<open>int\<close> quotient width / 2 (which truncates toward zero), rounded
  to the nearest integer with halfway cases away from zero, and likewise its top edge.
  In particular position (400, 300), scale (1, 1), size 64 x 64 give the rectangle
  x = 368, y = 268, w = 64, h = 64.
\<close>

theorem renderSystem_draws:
  "(\<forall>frame. renderSystem em = Inr frame \<longrightarrow>
      (\<exists>draws. frame = [SDL_SetRenderDrawColor 50 50 60 255, SDL_RenderClear] @ draws @
                   [SDL_RenderPresent] \<and>
         list_all2 (\<lambda>e call. \<exists>sp tr r. sprites em e = Some sp \<and> transforms em e = Some tr \<and>
             tex sp \<noteq> 0 \<and> dst_rect sp tr = Inr r \<and>
             call = SDL_RenderCopyEx (tex sp) None r (double_of_float (rot tr)) None SDL_FLIP_NONE)
           (filter (drawable em) (entities em)) draws)) \<and>
   ((\<forall>e \<in> set (entities em). drawable em e \<longrightarrow>
        (\<exists>r. dst_rect (the (sprites em e)) (the (transforms em e)) = Inr r)) \<longrightarrow>
      (\<exists>frame. renderSystem em = Inr frame)) \<and>
   (\<forall>e. drawable em e \<longleftrightarrow>
      (\<exists>sp tr. sprites em e = Some sp \<and> transforms em e = Some tr \<and> tex sp \<noteq> 0)) \<and>
   (distinct (entities em) \<longrightarrow> distinct (filter (drawable em) (entities em))) \<and>
   (\<forall>a. double_of_float a = a) \<and>
   (\<forall>sp tr r. dst_rect sp tr = Inr r \<longrightarrow>
      (\<exists>W H X Y.
         fmul (float_of_int (spr_w sp)) (vec_x (scale tr)) = Fin W \<and>
         rect_w r = trunc_toward_zero W \<and>
         fmul (float_of_int (spr_h sp)) (vec_y (scale tr)) = Fin H \<and>
         rect_h r = trunc_toward_zero H \<and>
         fsub (vec_x (pos tr)) (float_of_int (rect_w r sdiv 2)) = Fin X \<and>
         rect_x r = round_half_away X \<and>
         fsub (vec_y (pos tr)) (float_of_int (rect_h r sdiv 2)) = Fin Y \<and>
         rect_y r = round_half_away Y)) \<and>
   (\<forall>tx. dst_rect \<lparr>tex = tx, spr_w = 64, spr_h = 64\<rparr>
           \<lparr>pos = \<lparr>vec_x = Fin 400, vec_y = Fin 300\<rparr>, rot = Fin 0,
            scale = \<lparr>vec_x = Fin 1, vec_y = Fin 1\<rparr>\<rparr> =
         Inr \<lparr>rect_x = 368, rect_y = 268, rect_w = 64, rect_h = 64\<rparr>)"
proof -
  have a: "\<exists>draws. frame = [SDL_SetRenderDrawColor 50 50 60 255, SDL_RenderClear] @ draws @
                   [SDL_RenderPresent] \<and>
         list_all2 (\<lambda>e call. \<exists>sp tr r. sprites em e = Some sp \<and> transforms em e = Some tr \<and>
             tex sp \<noteq> 0 \<and> dst_rect sp tr = Inr r \<and>
             call = SDL_RenderCopyEx (tex sp) None r (double_of_float (rot tr)) None SDL_FLIP_NONE)
           (filter (drawable em) (entities em)) draws"
    if "renderSystem em = Inr frame" for frame
  proof -
    from that obtain draws where d: "render_entities em (entities em) = Inr draws"
      "frame = [SDL_SetRenderDrawColor 50 50 60 255, SDL_RenderClear] @ draws @ [SDL_RenderPresent]"
      by (auto simp: renderSystem_def split: sum.splits)
    from render_entities_Inr [OF d(1)] d(2) show ?thesis by blast
  qed
  have b: "\<exists>frame. renderSystem em = Inr frame"
    if "\<forall>e \<in> set (entities em). drawable em e \<longrightarrow>
        (\<exists>r. dst_rect (the (sprites em e)) (the (transforms em e)) = Inr r)"
    using render_entities_defined [OF that] by (auto simp: renderSystem_def)
  have c: "\<forall>sp tr r. dst_rect sp tr = Inr r \<longrightarrow>
      (\<exists>W H X Y.
         fmul (float_of_int (spr_w sp)) (vec_x (scale tr)) = Fin W \<and>
         rect_w r = trunc_toward_zero W \<and>
         fmul (float_of_int (spr_h sp)) (vec_y (scale tr)) = Fin H \<and>
         rect_h r = trunc_toward_zero H \<and>
         fsub (vec_x (pos tr)) (float_of_int (rect_w r sdiv 2)) = Fin X \<and>
         rect_x r = round_half_away X \<and>
         fsub (vec_y (pos tr)) (float_of_int (rect_h r sdiv 2)) = Fin Y \<and>
         rect_y r = round_half_away Y)"
    using dst_rect_Inr by blast
  from a b c show ?thesis
    by (intro conjI allI impI) (simp_all add: drawable_iff double_of_float_def dst_rect_scenario)
qed

theorem renderSystem_draws_witness:
  "renderSystem (one_sprite
       \<lparr>pos = \<lparr>vec_x = Fin 400, vec_y = Fin 300\<rparr>, rot = Fin 0,
        scale = \<lparr>vec_x = Fin 1, vec_y = Fin 1\<rparr>\<rparr>
       \<lparr>tex = 7, spr_w = 64, spr_h = 64\<rparr>) =
     Inr [SDL_SetRenderDrawColor 50 50 60 255, SDL_RenderClear,
          SDL_RenderCopyEx 7 None \<lparr>rect_x = 368, rect_y = 268, rect_w = 64, rect_h = 64\<rparr>
            (Fin 0) None SDL_FLIP_NONE,
          SDL_RenderPresent] \<and>
   drawable (one_sprite
       \<lparr>pos = \<lparr>vec_x = Fin 400, vec_y = Fin 300\<rparr>, rot = Fin 0,
        scale = \<lparr>vec_x = Fin 1, vec_y = Fin 1\<rparr>\<rparr>
       \<lparr>tex = 7, spr_w = 64, spr_h = 64\<rparr>) 1 \<and>
   distinct (entities (one_sprite
       \<lparr>pos = \<lparr>vec_x = Fin 400, vec_y = Fin 300\<rparr>, rot = Fin 0,
        scale = \<lparr>vec_x = Fin 1, vec_y = Fin 1\<rparr>\<rparr>
       \<lparr>tex = 7, spr_w = 64, spr_h = 64\<rparr>))"
  using renderSystem_draws [of "one_sprite
       \<lparr>pos = \<lparr>vec_x = Fin 400, vec_y = Fin 300\<rparr>, rot = Fin 0,
        scale = \<lparr>vec_x = Fin 1, vec_y = Fin 1\<rparr>\<rparr>
       \<lparr>tex = 7, spr_w = 64, spr_h = 64\<rparr>"]
  by (simp add: one_sprite_def renderSystem_def drawable_def dst_rect_scenario
      double_of_float_def)

text \<open>The claim C3 as it is stated fails where the scaled size is not an integer. The
  static objects of \<^verbatim>\<open>main\<close> have size 64 x 64 and scale \<^verbatim>\<open>0.8f\<close>: the first of them,
  at (100, 150), is drawn 51 wide, not \<open>64 * 0.8 = 51.2\<close>, with its left edge at 75, not
  at \<open>100 - 51.2 / 2\<close> rounded, which is 74. With the odd width 51 the \<^verbatim>\<open>int\<close> division
  takes 25 for the half width: at \<^verbatim>\<open>pos.x = 100.6f\<close> the left edge is 76, not
  \<open>100.6 - 51 / 2\<close> rounded, which is 75.\<close>

theorem renderSystem_truncates:
  "renderSystem (one_sprite
       \<lparr>pos = \<lparr>vec_x = Fin 100, vec_y = Fin 150\<rparr>, rot = Fin 0,
        scale = \<lparr>vec_x = fl32 (8 / 10), vec_y = fl32 (8 / 10)\<rparr>\<rparr>
       \<lparr>tex = 7, spr_w = 64, spr_h = 64\<rparr>) =
     Inr [SDL_SetRenderDrawColor 50 50 60 255, SDL_RenderClear,
          SDL_RenderCopyEx 7 None \<lparr>rect_x = 75, rect_y = 125, rect_w = 51, rect_h = 51\<rparr>
            (Fin 0) None SDL_FLIP_NONE,
          SDL_RenderPresent] \<and>
   fl32 (8 / 10) = Fin (13421773 / 16777216) \<and>
   (51 :: real) \<noteq> 64 * (13421773 / 16777216) \<and>
   round_half_away (100 - 64 * (13421773 / 16777216) / 2) = 74 \<and>
   renderSystem (one_sprite
       \<lparr>pos = \<lparr>vec_x = fl32 (1006 / 10), vec_y = Fin 150\<rparr>, rot = Fin 0,
        scale = \<lparr>vec_x = fl32 (8 / 10), vec_y = fl32 (8 / 10)\<rparr>\<rparr>
       \<lparr>tex = 7, spr_w = 64, spr_h = 64\<rparr>) =
     Inr [SDL_SetRenderDrawColor 50 50 60 255, SDL_RenderClear,
          SDL_RenderCopyEx 7 None \<lparr>rect_x = 76, rect_y = 125, rect_w = 51, rect_h = 51\<rparr>
            (Fin 0) None SDL_FLIP_NONE,
          SDL_RenderPresent] \<and>
   fl32 (1006 / 10) = Fin (13185843 / 131072) \<and>
   round_half_away (13185843 / 131072 - 51 / 2) = 75"
proof -
  have r1: "renderSystem (one_sprite
       \<lparr>pos = \<lparr>vec_x = Fin 100, vec_y = Fin 150\<rparr>, rot = Fin 0,
        scale = \<lparr>vec_x = fl32 (8 / 10), vec_y = fl32 (8 / 10)\<rparr>\<rparr>
       \<lparr>tex = 7, spr_w = 64, spr_h = 64\<rparr>) =
     Inr [SDL_SetRenderDrawColor 50 50 60 255, SDL_RenderClear,
          SDL_RenderCopyEx 7 None \<lparr>rect_x = 75, rect_y = 125, rect_w = 51, rect_h = 51\<rparr>
            (Fin 0) None SDL_FLIP_NONE,
          SDL_RenderPresent]"
    using dst_rect_static [of 7]
    by (simp add: one_sprite_def renderSystem_def double_of_float_def)
  have r2: "renderSystem (one_sprite
       \<lparr>pos = \<lparr>vec_x = fl32 (1006 / 10), vec_y = Fin 150\<rparr>, rot = Fin 0,
        scale = \<lparr>vec_x = fl32 (8 / 10), vec_y = fl32 (8 / 10)\<rparr>\<rparr>
       \<lparr>tex = 7, spr_w = 64, spr_h = 64\<rparr>) =
     Inr [SDL_SetRenderDrawColor 50 50 60 255, SDL_RenderClear,
          SDL_RenderCopyEx 7 None \<lparr>rect_x = 76, rect_y = 125, rect_w = 51, rect_h = 51\<rparr>
            (Fin 0) None SDL_FLIP_NONE,
          SDL_RenderPresent]"
    using dst_rect_moved [of 7]
    by (simp add: one_sprite_def renderSystem_def double_of_float_def)
  have n: "(51 :: real) \<noteq> 64 * (13421773 / 16777216)"
    "round_half_away (100 - 64 * (13421773 / 16777216) / 2) = 74"
    "round_half_away (13185843 / 131072 - 51 / 2) = 75"
    by (simp_all add: round_half_away_def)
  from r1 r2 n scale_08 pos_1006 show ?thesis by blast
qed

section \<open>The set-up of \<^verbatim>\<open>main\<close> and the states of its loop\<close>

text \<open>The registry \<^verbatim>\<open>main\<close> builds before its loop is a reachable one, and every completed
  pass of the loop takes a reachable registry to a reachable registry; so the statements
  about reachable registries hold throughout a run of the program.\<close>

lemma static_objects_reachable:
  "reachable em \<Longrightarrow> player \<in> set (entities em) \<Longrightarrow> static_objects player i em = Inr em' \<Longrightarrow>
     reachable em' \<and> player \<in> set (entities em')"
proof (induction "nat (5 - i)" arbitrary: i em rule: less_induct)
  case less
  note prems = less.prems
  show ?case
  proof (cases "i < 5")
    case False
    with prems show ?thesis by (simp add: static_objects.simps [of player i em])
  next
    case True
    with prems(3) obtain e em1 where c: "create em = Inr (e, em1)"
      by (auto simp: static_objects.simps [of player i em] split: sum.splits)
    from prems(1) c have r1: "reachable em1" by (rule r_create)
    from c have ents: "entities em1 = entities em @ [e]"
      by (auto simp: create_def Let_def split: if_splits)
    then have e1: "e \<in> set (entities em1)" and p1: "player \<in> set (entities em1)"
      using prems(2) by simp_all
    define t1 where "t1 = (at_default (transforms em1) e default_Transform)
                        \<lparr>pos := \<lparr>vec_x = fadd (Fin 100) (fmul (float_of_int i) (Fin 120)),
                                 vec_y = fadd (Fin 150) (fmul (float_of_int (i smod 2)) (Fin 80))\<rparr>\<rparr>"
    define em2 where "em2 = em1\<lparr>transforms := (transforms em1)(e \<mapsto> t1)\<rparr>"
    define t2 where "t2 = (at_default (transforms em2) e default_Transform)
                        \<lparr>scale := \<lparr>vec_x = fl32 (8 / 10), vec_y = fl32 (8 / 10)\<rparr>\<rparr>"
    define em3 where "em3 = em2\<lparr>transforms := (transforms em2)(e \<mapsto> t2)\<rparr>"
    define sp where "sp = at_default (sprites em3) player default_Sprite"
    define em4 where "em4 = em3\<lparr>sprites := with_entry (sprites em3) player default_Sprite\<rparr>"
    define em5 where "em5 = em4\<lparr>sprites := (sprites em4)(e \<mapsto> sp)\<rparr>"
    have r2: "reachable em2" unfolding em2_def using r1 e1 by (rule r_transform)
    have en2: "entities em2 = entities em1" by (simp add: em2_def)
    have r3: "reachable em3" unfolding em3_def using r2 by (rule r_transform) (simp add: en2 e1)
    have en3: "entities em3 = entities em1" by (simp add: em3_def en2)
    have r4: "reachable em4" unfolding em4_def with_entry_def
      using r3 by (rule r_sprite) (simp add: en3 p1)
    have en4: "entities em4 = entities em1" by (simp add: em4_def en3)
    have r5: "reachable em5" unfolding em5_def using r4 by (rule r_sprite) (simp add: en4 e1)
    have en5: "entities em5 = entities em1" by (simp add: em5_def en4)
    have step: "static_objects player i em = static_objects player (i + 1) em5"
      using True c
      by (subst static_objects.simps)
        (simp add: Let_def t1_def em2_def t2_def em3_def sp_def em4_def em5_def)
    have m: "nat (5 - (i + 1)) < nat (5 - i)" using True by simp
    from prems(3) step have "static_objects player (i + 1) em5 = Inr em'" by simp
    from less.hyps [OF m r5 _ this] p1 have "reachable em' \<and> player \<in> set (entities em')"
      by (simp add: en5)
    then show ?thesis .
  qed
qed


lemma main_setup_reachable:
  assumes "main_setup texture = Inr (player, em)"
  shows "reachable em \<and> player = 1 \<and> player \<in> set (entities em)"
proof -
  let ?em1 = "new_EntityManager\<lparr>nextId := 2, entities := [1],
       transforms := [1 \<mapsto> default_Transform]\<rparr>"
  have c: "create new_EntityManager = Inr (1, ?em1)"
    by (simp add: create_def new_EntityManager_def INT_MAX_def)
  from r_new c have r1: "reachable ?em1" by (rule r_create)
  define t1 where "t1 = (at_default (transforms ?em1) 1 default_Transform)
                     \<lparr>pos := \<lparr>vec_x = fl32 (of_int WINDOW_W / 2), vec_y = fl32 (of_int WINDOW_H / 2)\<rparr>\<rparr>"
  define em2 where "em2 = ?em1\<lparr>transforms := (transforms ?em1)(1 \<mapsto> t1)\<rparr>"
  define t2 where "t2 = (at_default (transforms em2) 1 default_Transform)
                     \<lparr>scale := \<lparr>vec_x = Fin 1, vec_y = Fin 1\<rparr>\<rparr>"
  define em3 where "em3 = em2\<lparr>transforms := (transforms em2)(1 \<mapsto> t2)\<rparr>"
  define em4 where "em4 = em3\<lparr>bodies := (bodies em3)
                       (1 \<mapsto> \<lparr>vel = \<lparr>vec_x = Fin 0, vec_y = Fin 0\<rparr>, mass = Fin 1\<rparr>)\<rparr>"
  define em5 where "em5 = em4\<lparr>sprites := (sprites em4)
                       (1 \<mapsto> \<lparr>tex = texture, spr_w = 64, spr_h = 64\<rparr>)\<rparr>"
  have r2: "reachable em2" unfolding em2_def using r1 by (rule r_transform) simp
  have r3: "reachable em3" unfolding em3_def using r2 by (rule r_transform) (simp add: em2_def)
  have r4: "reachable em4" unfolding em4_def using r3
    by (rule r_body) (simp add: em3_def em2_def)
  have r5: "reachable em5" unfolding em5_def using r4
    by (rule r_sprite) (simp add: em4_def em3_def em2_def)
  have p5: "1 \<in> set (entities em5)" by (simp add: em5_def em4_def em3_def em2_def)
  from assms c have "static_objects 1 0 em5 = Inr em" and "player = 1"
    by (auto simp: main_setup_def Let_def t1_def em2_def t2_def em3_def em4_def em5_def
        split: sum.splits)
  with static_objects_reachable [OF r5 p5] show ?thesis by blast
qed

lemma fixed_tick_reachable: "reachable em \<Longrightarrow> reachable (fixed_tick p inp em)"
  unfolding fixed_tick_def by (intro r_physics r_control)

lemma drain_reachable:
  assumes "drain p inp em acc calls = Some r"
  shows "reachable em \<longrightarrow> reachable (fst r)"
proof (rule drain.raw_induct [where P = "\<lambda>p inp em acc calls r. reachable em \<longrightarrow> reachable (fst r)",
      OF _ assms])
  fix d :: "Entity \<Rightarrow> InputState \<Rightarrow> EntityManager \<Rightarrow> float \<Rightarrow> sys_call list \<Rightarrow>
     (EntityManager \<times> float \<times> sys_call list) option"
  fix p inp em acc calls r
  assume IH: "\<And>p inp em acc calls r. d p inp em acc calls = Some r \<Longrightarrow>
      reachable em \<longrightarrow> reachable (fst r)"
    and eq: "(if fge acc TARGET_DT
      then d p inp (fixed_tick p inp em) (fsub acc TARGET_DT)
            (calls @ [Call_playerControlSystem, Call_physicsSystem])
      else Some (em, acc, calls)) = Some r"
  show "reachable em \<longrightarrow> reachable (fst r)"
  proof (cases "fge acc TARGET_DT")
    case True
    with eq have "d p inp (fixed_tick p inp em) (fsub acc TARGET_DT)
            (calls @ [Call_playerControlSystem, Call_physicsSystem]) = Some r" by simp
    from IH [OF this] show ?thesis by (simp add: fixed_tick_reachable)
  next
    case False
    with eq show ?thesis by auto
  qed
qed

lemma outer_iteration_reachable:
  assumes "outer_iteration p st elapsed evs = Some (Inr (st1, frame, calls))"
    and "reachable (ls_em st)"
  shows "reachable (ls_em st1)"
proof -
  from assms(1) obtain em1 acc2 calls1 where
    d: "drain p (processInput (ls_input st) evs) (ls_em st)
          (fadd (ls_accumulator st) (float_of_double elapsed)) [Call_processInput] =
        Some (em1, acc2, calls1)" and "ls_em st1 = em1"
    by (auto simp: outer_iteration_def Let_def split: option.splits sum.splits)
  with drain_reachable [OF d] assms(2) show ?thesis by simp
qed

text \<open>The scene of \<^verbatim>\<open>main\<close>: the player 1 in the middle of the window and five static
  objects of scale \<^verbatim>\<open>0.8f\<close>, all with the same 64 x 64 sprite.\<close>

lemma small_floats:
  "fl32 0 = Fin 0" "fl32 1 = Fin 1" "fl32 2 = Fin 2" "fl32 3 = Fin 3" "fl32 4 = Fin 4"
  "fl32 80 = Fin 80" "fl32 100 = Fin 100" "fl32 120 = Fin 120" "fl32 150 = Fin 150"
  "fl32 220 = Fin 220" "fl32 230 = Fin 230" "fl32 240 = Fin 240" "fl32 340 = Fin 340"
  "fl32 360 = Fin 360" "fl32 460 = Fin 460" "fl32 480 = Fin 480" "fl32 580 = Fin 580"
  "fl32 400 = Fin 400" "fl32 300 = Fin 300"
  by (simp_all add: fl32_eval)

lemma main_setup_value:
  "main_setup texture =
     Inr (1, \<lparr>nextId = 7, entities = [1, 2, 3, 4, 5, 6],
        transforms =
          [1 \<mapsto> \<lparr>pos = \<lparr>vec_x = Fin 400, vec_y = Fin 300\<rparr>, rot = Fin 0,
                  scale = \<lparr>vec_x = Fin 1, vec_y = Fin 1\<rparr>\<rparr>,
           2 \<mapsto> \<lparr>pos = \<lparr>vec_x = Fin 100, vec_y = Fin 150\<rparr>, rot = Fin 0,
                  scale = \<lparr>vec_x = fl32 (8 / 10), vec_y = fl32 (8 / 10)\<rparr>\<rparr>,
           3 \<mapsto> \<lparr>pos = \<lparr>vec_x = Fin 220, vec_y = Fin 230\<rparr>, rot = Fin 0,
                  scale = \<lparr>vec_x = fl32 (8 / 10), vec_y = fl32 (8 / 10)\<rparr>\<rparr>,
           4 \<mapsto> \<lparr>pos = \<lparr>vec_x = Fin 340, vec_y = Fin 150\<rparr>, rot = Fin 0,
                  scale = \<lparr>vec_x = fl32 (8 / 10), vec_y = fl32 (8 / 10)\<rparr>\<rparr>,
           5 \<mapsto> \<lparr>pos = \<lparr>vec_x = Fin 460, vec_y = Fin 230\<rparr>, rot = Fin 0,
                  scale = \<lparr>vec_x = fl32 (8 / 10), vec_y = fl32 (8 / 10)\<rparr>\<rparr>,
           6 \<mapsto> \<lparr>pos = \<lparr>vec_x = Fin 580, vec_y = Fin 150\<rparr>, rot = Fin 0,
                  scale = \<lparr>vec_x = fl32 (8 / 10), vec_y = fl32 (8 / 10)\<rparr>\<rparr>],
        sprites =
          [1 \<mapsto> \<lparr>tex = texture, spr_w = 64, spr_h = 64\<rparr>,
           2 \<mapsto> \<lparr>tex = texture, spr_w = 64, spr_h = 64\<rparr>,
           3 \<mapsto> \<lparr>tex = texture, spr_w = 64, spr_h = 64\<rparr>,
           4 \<mapsto> \<lparr>tex = texture, spr_w = 64, spr_h = 64\<rparr>,
           5 \<mapsto> \<lparr>tex = texture, spr_w = 64, spr_h = 64\<rparr>,
           6 \<mapsto> \<lparr>tex = texture, spr_w = 64, spr_h = 64\<rparr>],
        bodies = [1 \<mapsto> \<lparr>vel = \<lparr>vec_x = Fin 0, vec_y = Fin 0\<rparr>, mass = Fin 1\<rparr>]\<rparr>)"
  by (simp add: main_setup_def static_objects.simps create_def new_EntityManager_def
      INT_MAX_def Let_def at_default_def with_entry_def default_Transform_def
      WINDOW_W_def WINDOW_H_def float_of_int_def small_floats fun_upd_idem signed_modulo_int_def)

end
